theory Spec2Isabelle
  imports Complex_Main
begin

section \<open>Metal compositions (composition catalog)\<close>

text \<open>
  The Go struct \<open>MetalComposition\<close>. Go's \<open>float64\<close> fields are modelled as real
  numbers: the catalog holds decimal literals and the resolver only copies them.
  A struct literal that omits a field leaves it at its zero value, so every literal
  of the source is written as an update of the zero value \<open>MetalComposition{}\<close>.
\<close>

record MetalComposition =
  Name :: string
  MetalType :: string
  Weight :: real
  Purity :: real
  Description :: string
  IsBaseMetal :: bool
  WeightGrams :: real
  CopperPercent :: real
  NickelPercent :: real

definition MetalComposition_zero :: MetalComposition where
  "MetalComposition_zero =
     \<lparr>Name = [], MetalType = [], Weight = 0, Purity = 0, Description = [],
      IsBaseMetal = False, WeightGrams = 0, CopperPercent = 0, NickelPercent = 0\<rparr>"

text \<open>
  The package variable \<open>CommonCompositions\<close>, a Go map literal. Its keys are pairwise
  distinct (a duplicate key in a map literal does not compile), so the association
  list below read with \<open>map_of\<close> is the same finite map.
\<close>

definition CommonCompositions :: "(string \<times> MetalComposition) list" where
"CommonCompositions = [
  (''Morgan Dollar'',
     MetalComposition_zero\<lparr>Name := ''Morgan Dollar'',
       MetalType := ''silver'',
       Weight := 0.77344,
       Purity := 90,
       Description := ''Contains 0.77344 oz of silver (90% silver, 10% copper)''\<rparr>),
  (''Peace Dollar'',
     MetalComposition_zero\<lparr>Name := ''Peace Dollar'',
       MetalType := ''silver'',
       Weight := 0.77344,
       Purity := 90,
       Description := ''Contains 0.77344 oz of silver (90% silver, 10% copper)''\<rparr>),
  (''Eisenhower Dollar'',
     MetalComposition_zero\<lparr>Name := ''Eisenhower Dollar'',
       MetalType := ''copper'',
       Weight := 0,
       Purity := 0,
       Description := ''Copper-nickel clad, no precious metal content''\<rparr>),
  (''Walking Liberty Half Dollar'',
     MetalComposition_zero\<lparr>Name := ''Walking Liberty Half Dollar'',
       MetalType := ''silver'',
       Weight := 0.36169,
       Purity := 90,
       Description := ''Contains 0.36169 oz of silver (90% silver, 10% copper)''\<rparr>),
  (''Franklin Half Dollar'',
     MetalComposition_zero\<lparr>Name := ''Franklin Half Dollar'',
       MetalType := ''silver'',
       Weight := 0.36169,
       Purity := 90,
       Description := ''Contains 0.36169 oz of silver (90% silver, 10% copper)''\<rparr>),
  (''Kennedy Half Dollar'',
     MetalComposition_zero\<lparr>Name := ''Kennedy Half Dollar (1964)'',
       MetalType := ''silver'',
       Weight := 0.36169,
       Purity := 90,
       Description := ''1964 only: 90% silver. 1965-1970: 40% silver. 1971+: no silver''\<rparr>),
  (''Washington Quarter'',
     MetalComposition_zero\<lparr>Name := ''Washington Quarter (Pre-1965)'',
       MetalType := ''silver'',
       Weight := 0.18084,
       Purity := 90,
       Description := ''Pre-1965 only: Contains 0.18084 oz of silver (90% silver)''\<rparr>),
  (''Standing Liberty Quarter'',
     MetalComposition_zero\<lparr>Name := ''Standing Liberty Quarter'',
       MetalType := ''silver'',
       Weight := 0.18084,
       Purity := 90,
       Description := ''Contains 0.18084 oz of silver (90% silver, 10% copper)''\<rparr>),
  (''Mercury Dime'',
     MetalComposition_zero\<lparr>Name := ''Mercury Dime'',
       MetalType := ''silver'',
       Weight := 0.07234,
       Purity := 90,
       Description := ''Contains 0.07234 oz of silver (90% silver, 10% copper)''\<rparr>),
  (''Roosevelt Dime'',
     MetalComposition_zero\<lparr>Name := ''Roosevelt Dime (Pre-1965)'',
       MetalType := ''silver'',
       Weight := 0.07234,
       Purity := 90,
       Description := ''Pre-1965 only: Contains 0.07234 oz of silver (90% silver)''\<rparr>),
  (''Barber Dime'',
     MetalComposition_zero\<lparr>Name := ''Barber Dime'',
       MetalType := ''silver'',
       Weight := 0.07234,
       Purity := 90,
       Description := ''Contains 0.07234 oz of silver (90% silver, 10% copper)''\<rparr>),
  (''American Gold Eagle (1 oz)'',
     MetalComposition_zero\<lparr>Name := ''American Gold Eagle (1 oz)'',
       MetalType := ''gold'',
       Weight := 1,
       Purity := 91.67,
       Description := ''Contains 1 troy oz of pure gold (22 karat, 91.67% gold)''\<rparr>),
  (''American Gold Eagle (1/2 oz)'',
     MetalComposition_zero\<lparr>Name := ''American Gold Eagle (1/2 oz)'',
       MetalType := ''gold'',
       Weight := 0.5,
       Purity := 91.67,
       Description := ''Contains 0.5 troy oz of pure gold (22 karat)''\<rparr>),
  (''American Gold Eagle (1/4 oz)'',
     MetalComposition_zero\<lparr>Name := ''American Gold Eagle (1/4 oz)'',
       MetalType := ''gold'',
       Weight := 0.25,
       Purity := 91.67,
       Description := ''Contains 0.25 troy oz of pure gold (22 karat)''\<rparr>),
  (''American Gold Eagle (1/10 oz)'',
     MetalComposition_zero\<lparr>Name := ''American Gold Eagle (1/10 oz)'',
       MetalType := ''gold'',
       Weight := 0.1,
       Purity := 91.67,
       Description := ''Contains 0.1 troy oz of pure gold (22 karat)''\<rparr>),
  (''$20 Liberty'',
     MetalComposition_zero\<lparr>Name := ''$20 Liberty Gold Coin'',
       MetalType := ''gold'',
       Weight := 0.96750,
       Purity := 90,
       Description := ''Contains 0.96750 oz of pure gold (90% gold)''\<rparr>),
  (''$20 Saint Gaudens'',
     MetalComposition_zero\<lparr>Name := ''$20 Saint Gaudens'',
       MetalType := ''gold'',
       Weight := 0.96750,
       Purity := 90,
       Description := ''Contains 0.96750 oz of pure gold (90% gold)''\<rparr>),
  (''$10 Liberty'',
     MetalComposition_zero\<lparr>Name := ''$10 Liberty Gold Coin'',
       MetalType := ''gold'',
       Weight := 0.48375,
       Purity := 90,
       Description := ''Contains 0.48375 oz of pure gold (90% gold)''\<rparr>),
  (''$10 Indian'',
     MetalComposition_zero\<lparr>Name := ''$10 Indian Gold Coin'',
       MetalType := ''gold'',
       Weight := 0.48375,
       Purity := 90,
       Description := ''Contains 0.48375 oz of pure gold (90% gold)''\<rparr>),
  (''$5 Liberty'',
     MetalComposition_zero\<lparr>Name := ''$5 Liberty Gold Coin'',
       MetalType := ''gold'',
       Weight := 0.24187,
       Purity := 90,
       Description := ''Contains 0.24187 oz of pure gold (90% gold)''\<rparr>),
  (''$5 Indian'',
     MetalComposition_zero\<lparr>Name := ''$5 Indian Gold Coin'',
       MetalType := ''gold'',
       Weight := 0.24187,
       Purity := 90,
       Description := ''Contains 0.24187 oz of pure gold (90% gold)''\<rparr>),
  (''$2.50 Liberty'',
     MetalComposition_zero\<lparr>Name := ''$2.50 Liberty Gold Coin'',
       MetalType := ''gold'',
       Weight := 0.12094,
       Purity := 90,
       Description := ''Contains 0.12094 oz of pure gold (90% gold)''\<rparr>),
  (''$2.50 Indian'',
     MetalComposition_zero\<lparr>Name := ''$2.50 Indian Gold Coin'',
       MetalType := ''gold'',
       Weight := 0.12094,
       Purity := 90,
       Description := ''Contains 0.12094 oz of pure gold (90% gold)''\<rparr>),
  (''$1 Liberty'',
     MetalComposition_zero\<lparr>Name := ''$1 Liberty Gold Coin'',
       MetalType := ''gold'',
       Weight := 0.04837,
       Purity := 90,
       Description := ''Contains 0.04837 oz of pure gold (90% gold)''\<rparr>),
  (''Buffalo Nickel'',
     MetalComposition_zero\<lparr>Name := ''Buffalo Nickel (1913-1938)'',
       MetalType := ''copper'',
       Weight := 0,
       Purity := 0,
       Description := ''75% copper, 25% nickel. No precious metal content - base metal only'',
       IsBaseMetal := True,
       WeightGrams := 5,
       CopperPercent := 75,
       NickelPercent := 25\<rparr>),
  (''Jefferson Nickel'',
     MetalComposition_zero\<lparr>Name := ''Jefferson Nickel'',
       MetalType := ''copper'',
       Weight := 0,
       Purity := 0,
       Description := ''75% copper, 25% nickel (wartime 1942-1945: 35% silver). No precious metal content in regular strikes'',
       IsBaseMetal := True,
       WeightGrams := 5,
       CopperPercent := 75,
       NickelPercent := 25\<rparr>),
  (''Jefferson Nickel (Wartime Silver)'',
     MetalComposition_zero\<lparr>Name := ''Jefferson Nickel (1942-1945 Silver)'',
       MetalType := ''silver'',
       Weight := 0.05626,
       Purity := 35,
       Description := ''Wartime 1942-1945 with large mintmark above Monticello: 35% silver, 0.05626 oz''\<rparr>),
  (''Liberty Nickel'',
     MetalComposition_zero\<lparr>Name := ''Liberty Head Nickel (1883-1913)'',
       MetalType := ''copper'',
       Weight := 0,
       Purity := 0,
       Description := ''75% copper, 25% nickel. No precious metal content'',
       IsBaseMetal := True,
       WeightGrams := 5,
       CopperPercent := 75,
       NickelPercent := 25\<rparr>),
  (''Shield Nickel'',
     MetalComposition_zero\<lparr>Name := ''Shield Nickel (1866-1883)'',
       MetalType := ''copper'',
       Weight := 0,
       Purity := 0,
       Description := ''75% copper, 25% nickel. No precious metal content'',
       IsBaseMetal := True,
       WeightGrams := 5,
       CopperPercent := 75,
       NickelPercent := 25\<rparr>),
  (''Indian Head Cent'',
     MetalComposition_zero\<lparr>Name := ''Indian Head Cent'',
       MetalType := ''copper'',
       Weight := 0,
       Purity := 0,
       Description := ''95% copper, 5% tin and zinc. No precious metal content''\<rparr>),
  (''Lincoln Cent'',
     MetalComposition_zero\<lparr>Name := ''Lincoln Cent (Pre-1982)'',
       MetalType := ''copper'',
       Weight := 0,
       Purity := 0,
       Description := ''95% copper, 5% zinc. No precious metal content''\<rparr>),
  (''Wheat Penny'',
     MetalComposition_zero\<lparr>Name := ''Wheat Penny (1909-1958)'',
       MetalType := ''copper'',
       Weight := 0,
       Purity := 0,
       Description := ''95% copper, 5% tin and zinc. No precious metal content''\<rparr>),
  (''Steel Penny'',
     MetalComposition_zero\<lparr>Name := ''Steel Penny (1943)'',
       MetalType := ''copper'',
       Weight := 0,
       Purity := 0,
       Description := ''Zinc-coated steel. No precious metal content''\<rparr>),
  (''Three Cent Silver'',
     MetalComposition_zero\<lparr>Name := ''Three Cent Silver (Trime)'',
       MetalType := ''silver'',
       Weight := 0.02419,
       Purity := 75,
       Description := ''Contains 0.02419 oz of silver (75% silver, 25% copper)''\<rparr>),
  (''Seated Liberty Half Dime'',
     MetalComposition_zero\<lparr>Name := ''Seated Liberty Half Dime'',
       MetalType := ''silver'',
       Weight := 0.03617,
       Purity := 90,
       Description := ''Contains 0.03617 oz of silver (90% silver, 10% copper)''\<rparr>),
  (''Bust Half Dime'',
     MetalComposition_zero\<lparr>Name := ''Bust Half Dime'',
       MetalType := ''silver'',
       Weight := 0.03617,
       Purity := 89.24,
       Description := ''Contains 0.03617 oz of silver (89.24% silver)''\<rparr>),
  (''Barber Quarter'',
     MetalComposition_zero\<lparr>Name := ''Barber Quarter'',
       MetalType := ''silver'',
       Weight := 0.18084,
       Purity := 90,
       Description := ''Contains 0.18084 oz of silver (90% silver, 10% copper)''\<rparr>),
  (''Seated Liberty Quarter'',
     MetalComposition_zero\<lparr>Name := ''Seated Liberty Quarter'',
       MetalType := ''silver'',
       Weight := 0.18084,
       Purity := 90,
       Description := ''Contains 0.18084 oz of silver (90% silver, 10% copper)''\<rparr>),
  (''Draped Bust Quarter'',
     MetalComposition_zero\<lparr>Name := ''Draped Bust Quarter'',
       MetalType := ''silver'',
       Weight := 0.19285,
       Purity := 89.24,
       Description := ''Contains 0.19285 oz of silver (89.24% silver)''\<rparr>),
  (''Capped Bust Quarter'',
     MetalComposition_zero\<lparr>Name := ''Capped Bust Quarter'',
       MetalType := ''silver'',
       Weight := 0.19285,
       Purity := 89.24,
       Description := ''Contains 0.19285 oz of silver (89.24% silver)''\<rparr>),
  (''Barber Half Dollar'',
     MetalComposition_zero\<lparr>Name := ''Barber Half Dollar'',
       MetalType := ''silver'',
       Weight := 0.36169,
       Purity := 90,
       Description := ''Contains 0.36169 oz of silver (90% silver, 10% copper)''\<rparr>),
  (''Seated Liberty Half Dollar'',
     MetalComposition_zero\<lparr>Name := ''Seated Liberty Half Dollar'',
       MetalType := ''silver'',
       Weight := 0.36169,
       Purity := 90,
       Description := ''Contains 0.36169 oz of silver (90% silver, 10% copper)''\<rparr>),
  (''Capped Bust Half Dollar'',
     MetalComposition_zero\<lparr>Name := ''Capped Bust Half Dollar'',
       MetalType := ''silver'',
       Weight := 0.38570,
       Purity := 89.24,
       Description := ''Contains 0.38570 oz of silver (89.24% silver)''\<rparr>),
  (''Draped Bust Half Dollar'',
     MetalComposition_zero\<lparr>Name := ''Draped Bust Half Dollar'',
       MetalType := ''silver'',
       Weight := 0.38570,
       Purity := 89.24,
       Description := ''Contains 0.38570 oz of silver (89.24% silver)''\<rparr>),
  (''Seated Liberty Dollar'',
     MetalComposition_zero\<lparr>Name := ''Seated Liberty Dollar'',
       MetalType := ''silver'',
       Weight := 0.77344,
       Purity := 90,
       Description := ''Contains 0.77344 oz of silver (90% silver, 10% copper)''\<rparr>),
  (''Trade Dollar'',
     MetalComposition_zero\<lparr>Name := ''Trade Dollar'',
       MetalType := ''silver'',
       Weight := 0.78287,
       Purity := 90,
       Description := ''Contains 0.78287 oz of silver (90% silver, 10% copper)''\<rparr>),
  (''Bust Dollar'',
     MetalComposition_zero\<lparr>Name := ''Bust Dollar'',
       MetalType := ''silver'',
       Weight := 0.77344,
       Purity := 89.24,
       Description := ''Contains 0.77344 oz of silver (89.24% silver)''\<rparr>),
  (''American Silver Eagle'',
     MetalComposition_zero\<lparr>Name := ''American Silver Eagle (1 oz)'',
       MetalType := ''silver'',
       Weight := 1,
       Purity := 99.9,
       Description := ''Contains 1 troy oz of pure silver (99.9% silver)''\<rparr>),
  (''Canadian Maple Leaf (Gold)'',
     MetalComposition_zero\<lparr>Name := ''Canadian Gold Maple Leaf (1 oz)'',
       MetalType := ''gold'',
       Weight := 1,
       Purity := 99.99,
       Description := ''Contains 1 troy oz of pure gold (99.99% gold)''\<rparr>),
  (''Canadian Maple Leaf (Silver)'',
     MetalComposition_zero\<lparr>Name := ''Canadian Silver Maple Leaf (1 oz)'',
       MetalType := ''silver'',
       Weight := 1,
       Purity := 99.99,
       Description := ''Contains 1 troy oz of pure silver (99.99% silver)''\<rparr>),
  (''American Buffalo (Gold)'',
     MetalComposition_zero\<lparr>Name := ''American Gold Buffalo (1 oz)'',
       MetalType := ''gold'',
       Weight := 1,
       Purity := 99.99,
       Description := ''Contains 1 troy oz of pure gold (99.99% gold - 24 karat)''\<rparr>),
  (''Krugerrand'',
     MetalComposition_zero\<lparr>Name := ''South African Krugerrand (1 oz)'',
       MetalType := ''gold'',
       Weight := 1,
       Purity := 91.67,
       Description := ''Contains 1 troy oz of pure gold (22 karat, 91.67% gold)''\<rparr>),
  (''Vienna Philharmonic (Gold)'',
     MetalComposition_zero\<lparr>Name := ''Austrian Gold Philharmonic (1 oz)'',
       MetalType := ''gold'',
       Weight := 1,
       Purity := 99.99,
       Description := ''Contains 1 troy oz of pure gold (99.99% gold)''\<rparr>),
  (''Britannia (Gold)'',
     MetalComposition_zero\<lparr>Name := ''British Gold Britannia (1 oz)'',
       MetalType := ''gold'',
       Weight := 1,
       Purity := 99.99,
       Description := ''Contains 1 troy oz of pure gold (99.99% gold)''\<rparr>),
  (''Britannia (Silver)'',
     MetalComposition_zero\<lparr>Name := ''British Silver Britannia (1 oz)'',
       MetalType := ''silver'',
       Weight := 1,
       Purity := 99.9,
       Description := ''Contains 1 troy oz of pure silver (99.9% silver)''\<rparr>)
]"

section \<open>Year-based composition rules\<close>

record YearRange =
  StartYear :: int
  EndYear :: int
  Composition :: MetalComposition

record YearBasedComposition =
  CoinType :: string
  YearRanges :: "YearRange list"
  DefaultComp :: MetalComposition

text \<open>The package variable \<open>YearBasedCompositions\<close>, in declaration order.\<close>

definition YearBasedCompositions :: "YearBasedComposition list" where
"YearBasedCompositions = [
  \<lparr>CoinType = ''Kennedy Half Dollar'',
   YearRanges = [
       \<lparr>StartYear = 1964, EndYear = 1964,
        Composition = MetalComposition_zero\<lparr>Name := ''Kennedy Half Dollar (1964)'',
            MetalType := ''silver'',
            Weight := 0.36169,
            Purity := 90,
            Description := ''1964 only: Contains 0.36169 oz of silver (90% silver)''\<rparr>\<rparr>,
       \<lparr>StartYear = 1965, EndYear = 1970,
        Composition = MetalComposition_zero\<lparr>Name := ''Kennedy Half Dollar (1965-1970)'',
            MetalType := ''silver'',
            Weight := 0.14792,
            Purity := 40,
            Description := ''1965-1970: Contains 0.14792 oz of silver (40% silver)''\<rparr>\<rparr>],
   DefaultComp = MetalComposition_zero\<lparr>Name := ''Kennedy Half Dollar (1971+)'',
       MetalType := ''copper'',
       Weight := 0,
       Purity := 0,
       Description := ''1971+: Copper-nickel clad, no precious metal content''\<rparr>\<rparr>,
  \<lparr>CoinType = ''Washington Quarter'',
   YearRanges = [
       \<lparr>StartYear = 1932, EndYear = 1964,
        Composition = MetalComposition_zero\<lparr>Name := ''Washington Quarter (1932-1964)'',
            MetalType := ''silver'',
            Weight := 0.18084,
            Purity := 90,
            Description := ''1932-1964: Contains 0.18084 oz of silver (90% silver)''\<rparr>\<rparr>],
   DefaultComp = MetalComposition_zero\<lparr>Name := ''Washington Quarter (1965+)'',
       MetalType := ''copper'',
       Weight := 0,
       Purity := 0,
       Description := ''1965+: Copper-nickel clad, no precious metal content''\<rparr>\<rparr>,
  \<lparr>CoinType = ''Roosevelt Dime'',
   YearRanges = [
       \<lparr>StartYear = 1946, EndYear = 1964,
        Composition = MetalComposition_zero\<lparr>Name := ''Roosevelt Dime (1946-1964)'',
            MetalType := ''silver'',
            Weight := 0.07234,
            Purity := 90,
            Description := ''1946-1964: Contains 0.07234 oz of silver (90% silver)''\<rparr>\<rparr>],
   DefaultComp = MetalComposition_zero\<lparr>Name := ''Roosevelt Dime (1965+)'',
       MetalType := ''copper'',
       Weight := 0,
       Purity := 0,
       Description := ''1965+: Copper-nickel clad, no precious metal content''\<rparr>\<rparr>,
  \<lparr>CoinType = ''Jefferson Nickel'',
   YearRanges = [
       \<lparr>StartYear = 1942, EndYear = 1945,
        Composition = MetalComposition_zero\<lparr>Name := ''Jefferson Nickel (1942-1945 Wartime)'',
            MetalType := ''silver'',
            Weight := 0.05626,
            Purity := 35,
            Description := ''1942-1945 wartime with large mintmark: 35% silver, 0.05626 oz (Note: Not all 1942 nickels are silver - only those with large mintmark above Monticello)''\<rparr>\<rparr>],
   DefaultComp = MetalComposition_zero\<lparr>Name := ''Jefferson Nickel (Regular)'',
       MetalType := ''copper'',
       Weight := 0,
       Purity := 0,
       Description := ''75% copper, 25% nickel. No precious metal content'',
       IsBaseMetal := True,
       WeightGrams := 5,
       CopperPercent := 75,
       NickelPercent := 25\<rparr>\<rparr>,
  \<lparr>CoinType = ''Lincoln Cent'',
   YearRanges = [
       \<lparr>StartYear = 1909, EndYear = 1942,
        Composition = MetalComposition_zero\<lparr>Name := ''Lincoln Cent (1909-1942)'',
            MetalType := ''copper'',
            Weight := 0,
            Purity := 0,
            Description := ''95% copper, 5% tin and zinc. No precious metal content''\<rparr>\<rparr>,
       \<lparr>StartYear = 1943, EndYear = 1943,
        Composition = MetalComposition_zero\<lparr>Name := ''Lincoln Cent (1943 Steel)'',
            MetalType := ''copper'',
            Weight := 0,
            Purity := 0,
            Description := ''1943: Zinc-coated steel. No precious metal content''\<rparr>\<rparr>,
       \<lparr>StartYear = 1944, EndYear = 1946,
        Composition = MetalComposition_zero\<lparr>Name := ''Lincoln Cent (1944-1946 Shell Casing)'',
            MetalType := ''copper'',
            Weight := 0,
            Purity := 0,
            Description := ''95% copper, 5% zinc (recycled shell casings). No precious metal content''\<rparr>\<rparr>,
       \<lparr>StartYear = 1947, EndYear = 1982,
        Composition = MetalComposition_zero\<lparr>Name := ''Lincoln Cent (1947-1982)'',
            MetalType := ''copper'',
            Weight := 0,
            Purity := 0,
            Description := ''95% copper, 5% zinc. No precious metal content''\<rparr>\<rparr>],
   DefaultComp = MetalComposition_zero\<lparr>Name := ''Lincoln Cent (1982+)'',
       MetalType := ''copper'',
       Weight := 0,
       Purity := 0,
       Description := ''1982+: 97.5% zinc, 2.5% copper plating. No precious metal content''\<rparr>\<rparr>,
  \<lparr>CoinType = ''Eisenhower Dollar'',
   YearRanges = [
       \<lparr>StartYear = 1971, EndYear = 1976,
        Composition = MetalComposition_zero\<lparr>Name := ''Eisenhower Dollar (1971-1976 Silver)'',
            MetalType := ''silver'',
            Weight := 0.31625,
            Purity := 40,
            Description := ''1971-1976 40% silver version (S mint only): Contains 0.31625 oz of silver''\<rparr>\<rparr>],
   DefaultComp = MetalComposition_zero\<lparr>Name := ''Eisenhower Dollar (Copper-Nickel Clad)'',
       MetalType := ''copper'',
       Weight := 0,
       Purity := 0,
       Description := ''Copper-nickel clad, no precious metal content (most common)''\<rparr>\<rparr>,
  \<lparr>CoinType = ''Susan B. Anthony Dollar'',
   YearRanges = [],
   DefaultComp = MetalComposition_zero\<lparr>Name := ''Susan B. Anthony Dollar'',
       MetalType := ''copper'',
       Weight := 0,
       Purity := 0,
       Description := ''Copper-nickel clad, no precious metal content''\<rparr>\<rparr>,
  \<lparr>CoinType = ''Sacagawea Dollar'',
   YearRanges = [],
   DefaultComp = MetalComposition_zero\<lparr>Name := ''Sacagawea Dollar'',
       MetalType := ''copper'',
       Weight := 0,
       Purity := 0,
       Description := ''Manganese brass, no precious metal content''\<rparr>\<rparr>
]"


section \<open>Name normalizer\<close>

subsection \<open>The regular expressions of the normalizer\<close>

text \<open>
  Both patterns of \<open>normalizeCoinType\<close> are a concatenation of quantified character
  classes between optional anchors, so a pattern is a list of items \<open>Rep c lo hi\<close>:
  the class \<open>c\<close> repeated at least \<open>lo\<close> and at most \<open>hi\<close> times (\<open>None\<close>: no
  upper bound), all repetitions greedy. Strings are byte lists; every class below
  holds ASCII bytes only, so matching bytes and matching UTF-8 runes agree.
\<close>

datatype rx_item = Rep "char \<Rightarrow> bool" nat "nat option"

record regexp =
  anchored_start :: bool
  items :: "rx_item list"
  anchored_end :: bool

text \<open>Go (RE2) classes: \<open>\d\<close> is \<open>[0-9]\<close>, \<open>\s\<close> is \<open>[\t\n\f\r ]\<close>.\<close>

definition cls_digit :: "char \<Rightarrow> bool" where
  "cls_digit c = (c \<in> set ''0123456789'')"

definition cls_space :: "char \<Rightarrow> bool" where
  "cls_space c = (c \<in> {CHR 0x09, CHR 0x0A, CHR 0x0C, CHR 0x0D, CHR 0x20})"

definition cls_upper :: "char \<Rightarrow> bool" where
  "cls_upper c = (c \<in> set ''ABCDEFGHIJKLMNOPQRSTUVWXYZ'')"

definition cls_dash_space :: "char \<Rightarrow> bool" where
  "cls_dash_space c = (c = CHR ''-'' \<or> cls_space c)"

text \<open>
  Leftmost-first matching at the head of \<open>s\<close>, as a backtracking search finds it:
  a greedy repetition first tries to take one more character and only then to stop.
  The result is the text left after the match; \<open>eol\<close> says that the pattern ends
  with \<open>$\<close> (end of text: no multi-line flag is set).
\<close>

function rx_match :: "rx_item list \<Rightarrow> bool \<Rightarrow> string \<Rightarrow> string option" where
  "rx_match [] eol s = (if eol \<and> s \<noteq> [] then None else Some s)"
| "rx_match (Rep c lo hi # r) eol s =
     (case (case s of
              [] \<Rightarrow> None
            | x # xs \<Rightarrow>
                if c x \<and> hi \<noteq> Some 0
                then rx_match (Rep c (lo - 1) (map_option (\<lambda>h. h - 1) hi) # r) eol xs
                else None) of
        Some t \<Rightarrow> Some t
      | None \<Rightarrow> if lo = 0 then rx_match r eol s else None)"
  by pat_completeness auto
termination
  by (relation "measure (\<lambda>(r, eol, s). length s + length r)") auto

text \<open>
  \<open>ReplaceAllString(src, "")\<close>: every leftmost non-overlapping match is removed.
  \<open>at0\<close> says that \<open>s\<close> starts at the beginning of the text, the only place where
  \<open>^\<close> matches. A match of the empty string removes nothing and the search moves on by
  one character.
\<close>

function ReplaceAllString_empty :: "regexp \<Rightarrow> bool \<Rightarrow> string \<Rightarrow> string" where
  "ReplaceAllString_empty re at0 s =
     (case (if anchored_start re \<and> \<not> at0 then None
            else rx_match (items re) (anchored_end re) s) of
        Some t \<Rightarrow>
          if length t < length s then ReplaceAllString_empty re False t
          else (case s of [] \<Rightarrow> [] | x # xs \<Rightarrow> x # ReplaceAllString_empty re False xs)
      | None \<Rightarrow>
          (case s of [] \<Rightarrow> [] | x # xs \<Rightarrow> x # ReplaceAllString_empty re False xs))"
  by pat_completeness auto
termination
  by (relation "measure (\<lambda>(re, at0, s). length s)") auto

text \<open>\<^verbatim>\<open>^\d{4}[-\s]?[A-Z]?\s*\<close>\<close>

definition rx_year :: regexp where
  "rx_year =
     \<lparr>anchored_start = True,
      items = [Rep cls_digit 4 (Some 4), Rep cls_dash_space 0 (Some 1),
               Rep cls_upper 0 (Some 1), Rep cls_space 0 None],
      anchored_end = False\<rparr>"

text \<open>\<^verbatim>\<open>\s+[A-Z]{2}\d+[A-Z]*$\<close>\<close>

definition rx_grade :: regexp where
  "rx_grade =
     \<lparr>anchored_start = False,
      items = [Rep cls_space 1 None, Rep cls_upper 2 (Some 2),
               Rep cls_digit 1 None, Rep cls_upper 0 None],
      anchored_end = True\<rparr>"

definition normalizeCoinType :: "string \<Rightarrow> string" where
  "normalizeCoinType coinType =
     (let normalized = ReplaceAllString_empty rx_year True coinType;
          normalized = ReplaceAllString_empty rx_grade True normalized
      in normalized)"

section \<open>Catalog lookup and year-range resolver\<close>

text \<open>
  \<open>GetComposition\<close> reads the package variable \<open>CommonCompositions\<close> and
  \<open>GetCompositionByYear\<close> reads \<open>YearBasedCompositions\<close>; the \<open>_tbl\<close> functions take
  the tables as arguments, and the functions of the source are their instances at
  the tables above.
\<close>

definition GetComposition_tbl ::
  "(string \<times> MetalComposition) list \<Rightarrow> string \<Rightarrow> MetalComposition \<times> bool" where
  "GetComposition_tbl catalog coinType =
     (case map_of catalog coinType of
        Some compn \<Rightarrow> (compn, True)
      | None \<Rightarrow>
          (let normalized = normalizeCoinType coinType in
           if normalized \<noteq> coinType
           then (case map_of catalog normalized of
                   Some compn \<Rightarrow> (compn, True)
                 | None \<Rightarrow> (MetalComposition_zero, False))
           else (MetalComposition_zero, False)))"

definition GetComposition :: "string \<Rightarrow> MetalComposition \<times> bool" where
  "GetComposition coinType = GetComposition_tbl CommonCompositions coinType"

text \<open>The inner loop over \<open>ybc.YearRanges\<close>; \<open>None\<close> when the loop runs to its end.\<close>

fun scanYearRanges :: "YearRange list \<Rightarrow> int \<Rightarrow> MetalComposition option" where
  "scanYearRanges [] year = None"
| "scanYearRanges (yr # rest) year =
     (if year \<ge> StartYear yr \<and> year \<le> EndYear yr then Some (Composition yr)
      else scanYearRanges rest year)"

fun GetCompositionByYear_tbl ::
  "YearBasedComposition list \<Rightarrow> (string \<times> MetalComposition) list \<Rightarrow> string \<Rightarrow> int
     \<Rightarrow> MetalComposition \<times> bool" where
  "GetCompositionByYear_tbl [] catalog coinType year = GetComposition_tbl catalog coinType"
| "GetCompositionByYear_tbl (ybc # rest) catalog coinType year =
     (if CoinType ybc = coinType
      then (case scanYearRanges (YearRanges ybc) year of
              Some compn \<Rightarrow> (compn, True)
            | None \<Rightarrow> (DefaultComp ybc, True))
      else GetCompositionByYear_tbl rest catalog coinType year)"

definition GetCompositionByYear :: "string \<Rightarrow> int \<Rightarrow> MetalComposition \<times> bool" where
  "GetCompositionByYear coinType year =
     GetCompositionByYear_tbl YearBasedCompositions CommonCompositions coinType year"

text \<open>
  A synthetic rule set with two overlapping ranges, 1960-1970 and 1965-1975, as in
  the specification's first-match test.
\<close>

definition overlap_rules :: "YearBasedComposition list" where
  "overlap_rules =
     [\<lparr>CoinType = ''Synthetic'',
       YearRanges =
         [\<lparr>StartYear = 1960, EndYear = 1970,
           Composition = MetalComposition_zero\<lparr>Name := ''Synthetic (1960-1970)''\<rparr>\<rparr>,
          \<lparr>StartYear = 1965, EndYear = 1975,
           Composition = MetalComposition_zero\<lparr>Name := ''Synthetic (1965-1975)''\<rparr>\<rparr>],
       DefaultComp = MetalComposition_zero\<lparr>Name := ''Synthetic''\<rparr>\<rparr>]"

section \<open>Spot price oracle\<close>

text \<open>
  Prices are real numbers (Go \<open>float64\<close>); a \<open>time.Time\<close> is a reading of the clock
  in nanoseconds and a \<open>time.Duration\<close> a difference of two readings.
\<close>

record SpotPrices =
  Gold :: real
  Silver :: real
  Platinum :: real
  Palladium :: real
  Copper :: real
  Nickel :: real
  UpdatedAt :: int

text \<open>Go \<open>error\<close> values carry their message; \<open>None\<close> is the \<open>nil\<close> error.\<close>

datatype error = Err string

text \<open>Dereferencing a \<open>nil\<close> \<open>*SpotPrices\<close> panics.\<close>

datatype panic = NilPointerDereference

text \<open>The outbound HTTP requests, recorded in the order they are sent.\<close>

datatype outbound = GetGoldPriceOrg | GetMetalsLive

text \<open>The package variables \<open>cachedPrices\<close> (a pointer, \<open>None\<close> is \<open>nil\<close>) and \<open>lastFetchTime\<close>.\<close>

record oracle_state =
  cachedPrices :: "SpotPrices option"
  lastFetchTime :: int

text \<open>
  What one call reads from outside the process. \<open>since_clock\<close> is the clock as
  \<open>time.Since\<close> reads it, \<open>updated_clock\<close> as the \<open>time.Now()\<close> stamping \<open>UpdatedAt\<close>
  of the snapshot reads it, \<open>fetched_clock\<close> as the \<open>time.Now()\<close> assigned to
  \<open>lastFetchTime\<close> reads it. A feed's response is the outcome of \<open>http.Get\<close>,
  \<open>io.ReadAll\<close> and \<open>json.Unmarshal\<close> together: an error, or the decoded records
  (\<open>xauPrice\<close> and \<open>xagPrice\<close> of each item for goldprice.org, \<open>metal\<close> and \<open>price\<close>
  of each record for metals.live).
\<close>

record world =
  since_clock :: int
  goldprice_response :: "error + (real \<times> real) list"
  metalslive_response :: "error + (string \<times> real) list"
  updated_clock :: int
  fetched_clock :: int

definition cacheDuration :: int where
  "cacheDuration = 15 * (60 * 1000000000)"

definition fetchGoldPriceOrg :: "world \<Rightarrow> (SpotPrices option \<times> error option) \<times> outbound list" where
  "fetchGoldPriceOrg w =
     ((case goldprice_response w of
         Inl err \<Rightarrow> (None, Some err)
       | Inr Items \<Rightarrow>
           (case Items of
              [] \<Rightarrow> (None, Some (Err ''no items in goldprice.org response''))
            | (gold, silver) # _ \<Rightarrow>
                if gold = 0 \<or> silver = 0
                then (None, Some (Err ''invalid price data from goldprice.org''))
                else (Some \<lparr>Gold = gold, Silver = silver, Platinum = 950, Palladium = 950,
                             Copper = 5.52, Nickel = 6.96, UpdatedAt = updated_clock w\<rparr>,
                      None))),
      [GetGoldPriceOrg])"

text \<open>The loop of \<open>fetchMetalsLive\<close> over the decoded records, with its \<open>switch\<close>.\<close>

fun metalsLive_range :: "(string \<times> real) list \<Rightarrow> SpotPrices \<Rightarrow> SpotPrices" where
  "metalsLive_range [] prices = prices"
| "metalsLive_range ((metal, price) # rest) prices =
     metalsLive_range rest
       (if metal = ''gold'' then prices\<lparr>Gold := price\<rparr>
        else if metal = ''silver'' then prices\<lparr>Silver := price\<rparr>
        else if metal = ''platinum'' then prices\<lparr>Platinum := price\<rparr>
        else if metal = ''palladium'' then prices\<lparr>Palladium := price\<rparr>
        else if metal = ''copper'' then prices\<lparr>Copper := price\<rparr>
        else if metal = ''nickel'' then prices\<lparr>Nickel := price\<rparr>
        else prices)"

definition fetchMetalsLive :: "world \<Rightarrow> (SpotPrices option \<times> error option) \<times> outbound list" where
  "fetchMetalsLive w =
     ((case metalslive_response w of
         Inl err \<Rightarrow> (None, Some err)
       | Inr result \<Rightarrow>
           (let prices = metalsLive_range result
                  \<lparr>Gold = 0, Silver = 0, Platinum = 0, Palladium = 0, Copper = 0, Nickel = 0,
                   UpdatedAt = updated_clock w\<rparr>
            in if Gold prices = 0 \<or> Silver prices = 0
               then (None, Some (Err ''incomplete price data''))
               else (Some prices, None))),
      [GetMetalsLive])"

definition fetchRealPrices :: "world \<Rightarrow> (SpotPrices option \<times> error option) \<times> outbound list" where
  "fetchRealPrices w =
     (let ((goldPrice, err), sent) = fetchGoldPriceOrg w in
      if err = None then ((goldPrice, None), sent)
      else
        (let ((metalsLive, err), sent') = fetchMetalsLive w in
         if err = None then ((metalsLive, None), sent @ sent')
         else ((None, Some (Err ''all price sources failed'')), sent @ sent')))"

text \<open>
  \<open>GetSpotPrices\<close> returns its two results, the package variables after the call and
  the requests sent. The two \<open>fmt.Printf\<close> log lines are left out.
\<close>

definition GetSpotPrices ::
  "oracle_state \<Rightarrow> world \<Rightarrow> (SpotPrices option \<times> error option) \<times> oracle_state \<times> outbound list" where
  "GetSpotPrices st w =
     (if cachedPrices st \<noteq> None \<and> since_clock w - lastFetchTime st < cacheDuration
      then ((cachedPrices st, None), st, [])
      else
        (let ((realPrices, err), sent) = fetchRealPrices w in
         if err = None \<and> realPrices \<noteq> None
         then ((realPrices, None),
               st\<lparr>cachedPrices := realPrices, lastFetchTime := fetched_clock w\<rparr>, sent)
         else
           (let prices = Some \<lparr>Gold = 2650, Silver = 30.5, Platinum = 950, Palladium = 950,
                               Copper = 5.52, Nickel = 6.96, UpdatedAt = updated_clock w\<rparr>
            in ((prices, None),
                st\<lparr>cachedPrices := prices, lastFetchTime := fetched_clock w\<rparr>, sent))))"

definition UpdateSpotPricesManually ::
  "oracle_state \<Rightarrow> world \<Rightarrow> real \<Rightarrow> real \<Rightarrow> real \<Rightarrow> real \<Rightarrow> oracle_state" where
  "UpdateSpotPricesManually st w gold silver platinum palladium =
     st\<lparr>cachedPrices :=
          Some \<lparr>Gold = gold, Silver = silver, Platinum = platinum, Palladium = palladium,
                Copper = 5.52, Nickel = 6.96, UpdatedAt = updated_clock w\<rparr>,
        lastFetchTime := fetched_clock w\<rparr>"

section \<open>Melt value calculator\<close>

text \<open>
  The calculators return \<open>(float64, error)\<close>, or panic where they read a field
  through a \<open>nil\<close> snapshot pointer; they pass on the oracle's state and requests.
\<close>

definition field_of :: "SpotPrices option \<Rightarrow> (SpotPrices \<Rightarrow> real) \<Rightarrow> panic + real" where
  "field_of prices field =
     (case prices of None \<Rightarrow> Inl NilPointerDereference | Some p \<Rightarrow> Inr (field p))"

definition CalculateMeltValue ::
  "oracle_state \<Rightarrow> world \<Rightarrow> string \<Rightarrow> real \<Rightarrow> real
     \<Rightarrow> (panic + real \<times> error option) \<times> oracle_state \<times> outbound list" where
  "CalculateMeltValue st w metalType weight purity =
     (let ((prices, err), st', sent) = GetSpotPrices st w;
          finish = (\<lambda>r. case r of
                      Inl p \<Rightarrow> Inl p
                    | Inr pricePerOz \<Rightarrow>
                        (let pureWeight = weight * (purity / 100);
                             meltValue = pureWeight * pricePerOz
                         in Inr (meltValue, None)))
      in ((case err of
             Some e \<Rightarrow> Inr (0, Some e)
           | None \<Rightarrow>
               if metalType = ''gold'' then finish (field_of prices Gold)
               else if metalType = ''silver'' then finish (field_of prices Silver)
               else if metalType = ''platinum'' then finish (field_of prices Platinum)
               else if metalType = ''palladium'' then finish (field_of prices Palladium)
               else if metalType = ''copper'' \<or> metalType = ''nickel'' then Inr (0, None)
               else Inr (0, Some (Err (''unsupported metal type: '' @ metalType)))),
          st', sent))"

definition CalculateBaseMeltValue ::
  "oracle_state \<Rightarrow> world \<Rightarrow> real \<Rightarrow> real \<Rightarrow> real
     \<Rightarrow> (panic + real \<times> error option) \<times> oracle_state \<times> outbound list" where
  "CalculateBaseMeltValue st w weightGrams copperPercent nickelPercent =
     (let ((prices, err), st', sent) = GetSpotPrices st w
      in ((case err of
             Some e \<Rightarrow> Inr (0, Some e)
           | None \<Rightarrow>
               (case prices of
                  None \<Rightarrow> Inl NilPointerDereference
                | Some p \<Rightarrow>
                    (let weightPounds = weightGrams / 453.592;
                         copperValue = weightPounds * (copperPercent / 100) * Copper p;
                         nickelValue = weightPounds * (nickelPercent / 100) * Nickel p
                     in Inr (copperValue + nickelValue, None)))),
          st', sent))"

definition CalculateMeltValueFromComposition ::
  "oracle_state \<Rightarrow> world \<Rightarrow> MetalComposition
     \<Rightarrow> (panic + real \<times> error option) \<times> oracle_state \<times> outbound list" where
  "CalculateMeltValueFromComposition st w compn =
     (if IsBaseMetal compn
      then CalculateBaseMeltValue st w (WeightGrams compn) (CopperPercent compn)
             (NickelPercent compn)
      else CalculateMeltValue st w (MetalType compn) (Weight compn) (Purity compn))"

text \<open>
  Example states: the oracle at process start, a world in which both feeds fail, and
  an oracle holding live base-metal prices fetched at clock reading 0.
\<close>

definition cold_oracle :: oracle_state where
  "cold_oracle = \<lparr>cachedPrices = None, lastFetchTime = 0\<rparr>"

definition feeds_down :: "int \<Rightarrow> world" where
  "feeds_down now =
     \<lparr>since_clock = now,
      goldprice_response = Inl (Err ''connection refused''),
      metalslive_response = Inl (Err ''connection refused''),
      updated_clock = now, fetched_clock = now\<rparr>"

definition live_oracle :: oracle_state where
  "live_oracle =
     \<lparr>cachedPrices =
        Some \<lparr>Gold = 2700, Silver = 31, Platinum = 980, Palladium = 1010,
              Copper = 4.1, Nickel = 7.3, UpdatedAt = 0\<rparr>,
      lastFetchTime = 0\<rparr>"




subsection \<open>What a pattern accepts\<close>

text \<open>
  The words of a pattern, independent of any search order: \<open>w\<close> is accepted by
  \<open>Rep c lo hi # r\<close> when it splits into \<open>k\<close> characters of class \<open>c\<close>, with \<open>k\<close>
  between \<open>lo\<close> and \<open>hi\<close>, and a word accepted by \<open>r\<close>.
\<close>

fun rx_accepts :: "rx_item list \<Rightarrow> string \<Rightarrow> bool" where
  "rx_accepts [] w = (w = [])"
| "rx_accepts (Rep c lo hi # r) w =
     list_ex (\<lambda>k. lo \<le> k \<and> (case hi of None \<Rightarrow> True | Some h \<Rightarrow> k \<le> h)
                  \<and> list_all c (take k w) \<and> rx_accepts r (drop k w))
       [0..<Suc (length w)]"

text \<open>
  A year token is a prefix accepted by the year pattern, a grade token a suffix
  accepted by the grade pattern.
\<close>

definition has_year_token :: "string \<Rightarrow> bool" where
  "has_year_token s = list_ex (\<lambda>k. rx_accepts (items rx_year) (take k s)) [0..<Suc (length s)]"

definition has_grade_token :: "string \<Rightarrow> bool" where
  "has_grade_token s = list_ex (\<lambda>k. rx_accepts (items rx_grade) (drop k s)) [0..<Suc (length s)]"

text \<open>
  The normalizer as the specification words it: the grade pattern is
  \<^verbatim>\<open>\s+[A-Z]{2,4}\d+[A-Z]*$\<close>, with a grade prefix of two to four letters.
\<close>

definition rx_grade_spec :: regexp where
  "rx_grade_spec =
     \<lparr>anchored_start = False,
      items = [Rep cls_space 1 None, Rep cls_upper 2 (Some 4),
               Rep cls_digit 1 None, Rep cls_upper 0 None],
      anchored_end = True\<rparr>"

definition normalize_spec :: "string \<Rightarrow> string" where
  "normalize_spec raw =
     ReplaceAllString_empty rx_grade_spec True (ReplaceAllString_empty rx_year True raw)"

text \<open>
  The normalizer in terms of what the two patterns accept. The year token removed
  is the longest prefix of the input that the year pattern accepts; the grade token
  removed is the longest suffix of what is left that the grade pattern accepts.
  \<open>longest_year_token\<close> is the length of that prefix, \<open>longest_grade_token\<close> the
  position where that suffix starts.
\<close>

definition longest_year_token :: "string \<Rightarrow> nat option" where
  "longest_year_token s =
     find (\<lambda>k. rx_accepts (items rx_year) (take k s)) (rev [0..<Suc (length s)])"

definition longest_grade_token :: "string \<Rightarrow> nat option" where
  "longest_grade_token s =
     find (\<lambda>k. rx_accepts (items rx_grade) (drop k s)) [0..<Suc (length s)]"

definition strip_tokens :: "string \<Rightarrow> string" where
  "strip_tokens s =
     (let rest = (case longest_year_token s of None \<Rightarrow> s | Some k \<Rightarrow> drop k s)
      in case longest_grade_token rest of None \<Rightarrow> rest | Some k \<Rightarrow> take k rest)"

section \<open>The year-range resolver: first match and default\<close>


lemma scanYearRanges_first:
  "i < length rs \<Longrightarrow> StartYear (rs ! i) \<le> year \<and> year \<le> EndYear (rs ! i) \<Longrightarrow>
   \<forall>j<i. \<not> (StartYear (rs ! j) \<le> year \<and> year \<le> EndYear (rs ! j)) \<Longrightarrow>
   scanYearRanges rs year = Some (Composition (rs ! i))"
proof (induction rs arbitrary: i)
  case Nil
  then show ?case by simp
next
  case (Cons yr rest)
  show ?case
  proof (cases i)
    case 0
    with Cons.prems show ?thesis by simp
  next
    case (Suc i')
    from Cons.prems(3) Suc have miss: "\<not> (StartYear yr \<le> year \<and> year \<le> EndYear yr)"
      by (metis nth_Cons_0 zero_less_Suc)
    have later: "\<forall>j<i'. \<not> (StartYear (rest ! j) \<le> year \<and> year \<le> EndYear (rest ! j))"
    proof (intro allI impI)
      fix j assume "j < i'"
      then have "Suc j < i" using Suc by simp
      with Cons.prems(3) show "\<not> (StartYear (rest ! j) \<le> year \<and> year \<le> EndYear (rest ! j))"
        by (metis nth_Cons_Suc)
    qed
    from Cons.prems Suc have "i' < length rest"
      and "StartYear (rest ! i') \<le> year \<and> year \<le> EndYear (rest ! i')" by simp_all
    with Cons.IH later have "scanYearRanges rest year = Some (Composition (rest ! i'))" by blast
    with miss Suc show ?thesis by auto
  qed
qed

lemma scanYearRanges_none:
  "list_all (\<lambda>yr. \<not> (StartYear yr \<le> year \<and> year \<le> EndYear yr)) rs \<Longrightarrow>
   scanYearRanges rs year = None"
  by (induction rs) auto

lemma GetCompositionByYear_tbl_first:
  "k < length rules \<Longrightarrow> CoinType (rules ! k) = coinType \<Longrightarrow>
   \<forall>k'<k. CoinType (rules ! k') \<noteq> coinType \<Longrightarrow>
   GetCompositionByYear_tbl rules catalog coinType year =
     (case scanYearRanges (YearRanges (rules ! k)) year of
        Some c \<Rightarrow> (c, True) | None \<Rightarrow> (DefaultComp (rules ! k), True))"
proof (induction rules arbitrary: k)
  case Nil
  then show ?case by simp
next
  case (Cons ybc rest)
  show ?case
  proof (cases k)
    case 0
    with Cons.prems show ?thesis by (simp split: option.split)
  next
    case (Suc k')
    from Cons.prems(3) Suc have other: "CoinType ybc \<noteq> coinType"
      by (metis nth_Cons_0 zero_less_Suc)
    have later: "\<forall>j<k'. CoinType (rest ! j) \<noteq> coinType"
    proof (intro allI impI)
      fix j assume "j < k'"
      then have "Suc j < k" using Suc by simp
      with Cons.prems(3) show "CoinType (rest ! j) \<noteq> coinType"
        by (metis nth_Cons_Suc)
    qed
    from Cons.prems Suc have "k' < length rest" and "CoinType (rest ! k') = coinType"
      by simp_all
    with Cons.IH later have
      "GetCompositionByYear_tbl rest catalog coinType year =
         (case scanYearRanges (YearRanges (rest ! k')) year of
            Some c \<Rightarrow> (c, True) | None \<Rightarrow> (DefaultComp (rest ! k'), True))"
      by blast
    with other Suc show ?thesis by (simp split: option.split)
  qed
qed

lemma GetCompositionByYear_tbl_nonpositive:
  "list_all (\<lambda>ybc. list_all (\<lambda>yr. 0 < StartYear yr) (YearRanges ybc)) rules \<Longrightarrow> year \<le> 0 \<Longrightarrow>
   GetCompositionByYear_tbl rules catalog coinType year =
     (case find (\<lambda>ybc. CoinType ybc = coinType) rules of
        Some ybc \<Rightarrow> (DefaultComp ybc, True)
      | None \<Rightarrow> GetComposition_tbl catalog coinType)"
proof (induction rules)
  case Nil
  then show ?case by simp
next
  case (Cons ybc rest)
  from Cons.prems have "list_all (\<lambda>yr. \<not> (StartYear yr \<le> year \<and> year \<le> EndYear yr)) (YearRanges ybc)"
    by (auto simp: list_all_iff)
  then have "scanYearRanges (YearRanges ybc) year = None"
    by (rule scanYearRanges_none)
  with Cons show ?case by simp
qed

lemma YearBasedCompositions_start_positive:
  "list_all (\<lambda>ybc. list_all (\<lambda>yr. 0 < StartYear yr) (YearRanges ybc)) YearBasedCompositions"
  by (simp add: YearBasedCompositions_def)

section \<open>The spot price oracle: cache, refresh and fallback\<close>



lemma fetchMetalsLive_sent: "snd (fetchMetalsLive w) = [GetMetalsLive]"
  by (simp add: fetchMetalsLive_def)





lemma GetSpotPrices_returns:
  "\<exists>p. fst (GetSpotPrices st w) = (Some p, None)"
proof -
  obtain p e s where f: "fetchRealPrices w = ((p, e), s)"
    by (metis surj_pair)
  show ?thesis
    by (cases "cachedPrices st"; cases p) (auto simp: GetSpotPrices_def f Let_def)
qed








lemma GetSpotPrices_cases:
  obtains p st' sent where "GetSpotPrices st w = ((Some p, None), st', sent)"
proof -
  obtain p where "fst (GetSpotPrices st w) = (Some p, None)"
    using GetSpotPrices_returns by blast
  then have "GetSpotPrices st w =
      ((Some p, None), fst (snd (GetSpotPrices st w)), snd (snd (GetSpotPrices st w)))"
    by (metis prod.collapse)
  then show ?thesis by (rule that)
qed

lemma CalculateMeltValue_eq:
  assumes "GetSpotPrices st w = ((Some q, None), st', sent)"
  shows "fst (CalculateMeltValue st w metalType weight purity) =
     (if metalType = ''gold'' then Inr (weight * (purity / 100) * Gold q, None)
      else if metalType = ''silver'' then Inr (weight * (purity / 100) * Silver q, None)
      else if metalType = ''platinum'' then Inr (weight * (purity / 100) * Platinum q, None)
      else if metalType = ''palladium'' then Inr (weight * (purity / 100) * Palladium q, None)
      else if metalType = ''copper'' \<or> metalType = ''nickel'' then Inr (0, None)
      else Inr (0, Some (Err (''unsupported metal type: '' @ metalType))))"
  unfolding CalculateMeltValue_def assms field_of_def Let_def
  by (simp only: prod.case fst_conv option.case sum.case if_distrib[of fst] split: if_split)

lemma CalculateBaseMeltValue_eq:
  assumes "GetSpotPrices st w = ((Some q, None), st', sent)"
  shows "fst (CalculateBaseMeltValue st w weightGrams copperPercent nickelPercent) =
     Inr (weightGrams / 453.592 * (copperPercent / 100) * Copper q
          + weightGrams / 453.592 * (nickelPercent / 100) * Nickel q, None)"
  unfolding CalculateBaseMeltValue_def assms Let_def
  by (simp only: prod.case fst_conv option.case)

lemma CalculateMeltValue_base_metal:
  assumes "metalType = ''copper'' \<or> metalType = ''nickel''"
  shows "fst (CalculateMeltValue st w metalType weight purity) = Inr (0, None)"
proof -
  obtain p st' sent where g: "GetSpotPrices st w = ((Some p, None), st', sent)"
    by (rule GetSpotPrices_cases)
  from assms show ?thesis
  proof
    assume "metalType = ''copper''"
    then show ?thesis by (simp add: CalculateMeltValue_eq[OF g])
  next
    assume "metalType = ''nickel''"
    then show ?thesis by (simp add: CalculateMeltValue_eq[OF g])
  qed
qed

lemma CalculateMeltValue_unsupported:
  assumes "metalType \<notin> {''gold'', ''silver'', ''platinum'', ''palladium'', ''copper'', ''nickel''}"
  shows "fst (CalculateMeltValue st w metalType weight purity) =
     Inr (0, Some (Err (''unsupported metal type: '' @ metalType)))"
proof -
  obtain p st' sent where g: "GetSpotPrices st w = ((Some p, None), st', sent)"
    by (rule GetSpotPrices_cases)
  from assms have "metalType \<noteq> ''gold''" "metalType \<noteq> ''silver''" "metalType \<noteq> ''platinum''"
    "metalType \<noteq> ''palladium''" "metalType \<noteq> ''copper''" "metalType \<noteq> ''nickel''"
    by (simp_all only: insert_iff empty_iff de_Morgan_disj simp_thms)
  then show ?thesis
    unfolding CalculateMeltValue_eq[OF g] by (simp only: if_False simp_thms)
qed

lemma CalculateMeltValue_nonneg:
  assumes prices: "fst (fst (GetSpotPrices st w)) = Some p"
    and nonneg: "0 \<le> Gold p" "0 \<le> Silver p" "0 \<le> Platinum p" "0 \<le> Palladium p"
    and args: "0 \<le> weight" "0 \<le> purity"
    and known: "metalType \<in> {''gold'', ''silver'', ''platinum'', ''palladium'', ''copper'', ''nickel''}"
  shows "\<exists>v. fst (CalculateMeltValue st w metalType weight purity) = Inr (v, None) \<and> 0 \<le> v"
proof -
  obtain q st' sent where g: "GetSpotPrices st w = ((Some q, None), st', sent)"
    by (rule GetSpotPrices_cases)
  with prices have q: "q = p" by simp
  have pure: "0 \<le> weight * (purity / 100)"
    using args by simp
  from known have "metalType = ''gold'' \<or> metalType = ''silver'' \<or> metalType = ''platinum''
      \<or> metalType = ''palladium'' \<or> metalType = ''copper'' \<or> metalType = ''nickel''"
    by (simp only: insert_iff empty_iff simp_thms)
  then show ?thesis
  proof (elim disjE)
    assume m: "metalType = ''gold''"
    have "fst (CalculateMeltValue st w metalType weight purity) =
        Inr (weight * (purity / 100) * Gold p, None)"
      unfolding m CalculateMeltValue_eq[OF g] q by simp
    moreover have "0 \<le> weight * (purity / 100) * Gold p"
      using pure nonneg(1) by (rule mult_nonneg_nonneg)
    ultimately show ?thesis by (intro exI conjI)
  next
    assume m: "metalType = ''silver''"
    have "fst (CalculateMeltValue st w metalType weight purity) =
        Inr (weight * (purity / 100) * Silver p, None)"
      unfolding m CalculateMeltValue_eq[OF g] q by simp
    moreover have "0 \<le> weight * (purity / 100) * Silver p"
      using pure nonneg(2) by (rule mult_nonneg_nonneg)
    ultimately show ?thesis by (intro exI conjI)
  next
    assume m: "metalType = ''platinum''"
    have "fst (CalculateMeltValue st w metalType weight purity) =
        Inr (weight * (purity / 100) * Platinum p, None)"
      unfolding m CalculateMeltValue_eq[OF g] q by simp
    moreover have "0 \<le> weight * (purity / 100) * Platinum p"
      using pure nonneg(3) by (rule mult_nonneg_nonneg)
    ultimately show ?thesis by (intro exI conjI)
  next
    assume m: "metalType = ''palladium''"
    have "fst (CalculateMeltValue st w metalType weight purity) =
        Inr (weight * (purity / 100) * Palladium p, None)"
      unfolding m CalculateMeltValue_eq[OF g] q by simp
    moreover have "0 \<le> weight * (purity / 100) * Palladium p"
      using pure nonneg(4) by (rule mult_nonneg_nonneg)
    ultimately show ?thesis by (intro exI conjI)
  next
    assume "metalType = ''copper''"
    then have "fst (CalculateMeltValue st w metalType weight purity) = Inr (0, None)"
      by (intro CalculateMeltValue_base_metal disjI1)
    then show ?thesis by simp
  next
    assume "metalType = ''nickel''"
    then have "fst (CalculateMeltValue st w metalType weight purity) = Inr (0, None)"
      by (intro CalculateMeltValue_base_metal disjI2)
    then show ?thesis by simp
  qed
qed

lemma CalculateBaseMeltValue_nonneg:
  assumes prices: "fst (fst (GetSpotPrices st w)) = Some p"
    and nonneg: "0 \<le> Copper p" "0 \<le> Nickel p"
    and args: "0 \<le> weightGrams" "0 \<le> copperPercent" "0 \<le> nickelPercent"
  shows "\<exists>v. fst (CalculateBaseMeltValue st w weightGrams copperPercent nickelPercent) =
               Inr (v, None) \<and> 0 \<le> v"
proof -
  obtain q st' sent where g: "GetSpotPrices st w = ((Some q, None), st', sent)"
    by (rule GetSpotPrices_cases)
  with prices have q: "q = p" by simp
  have pounds: "0 \<le> weightGrams / 453.592"
    using args(1) by simp
  have "0 \<le> weightGrams / 453.592 * (copperPercent / 100) * Copper p"
    using pounds args(2) nonneg(1) by (intro mult_nonneg_nonneg) simp_all
  moreover have "0 \<le> weightGrams / 453.592 * (nickelPercent / 100) * Nickel p"
    using pounds args(3) nonneg(2) by (intro mult_nonneg_nonneg) simp_all
  ultimately have "0 \<le> weightGrams / 453.592 * (copperPercent / 100) * Copper p
      + weightGrams / 453.592 * (nickelPercent / 100) * Nickel p"
    by (rule add_nonneg_nonneg)
  then show ?thesis
    unfolding CalculateBaseMeltValue_eq[OF g] q by simp
qed

section \<open>The matcher against what a pattern accepts\<close>

lemma list_ex_upt_Suc: "list_ex P [0..<Suc n] \<longleftrightarrow> (\<exists>k\<le>n. P k)"
  unfolding list_ex_iff by (auto simp del: upt_Suc simp: less_Suc_eq_le)

lemma rx_accepts_Rep:
  "rx_accepts (Rep c lo hi # r) w \<longleftrightarrow>
     (\<exists>k\<le>length w. lo \<le> k \<and> (\<forall>h. hi = Some h \<longrightarrow> k \<le> h)
         \<and> list_all c (take k w) \<and> rx_accepts r (drop k w))"
  by (cases hi) (simp_all only: rx_accepts.simps list_ex_upt_Suc option.case option.inject
      option.distinct simp_thms)

lemma rx_accepts_skip:
  "rx_accepts r p \<Longrightarrow> rx_accepts (Rep c 0 hi # r) p"
  unfolding rx_accepts_Rep by (intro exI[of _ 0]) simp

lemma rx_accepts_more:
  assumes "rx_accepts (Rep c (lo - 1) (map_option (\<lambda>h. h - 1) hi) # r) p"
    and "c x" and "hi \<noteq> Some 0"
  shows "rx_accepts (Rep c lo hi # r) (x # p)"
proof -
  from assms(1) obtain k where k: "k \<le> length p" "lo - 1 \<le> k"
    "\<forall>h. map_option (\<lambda>h. h - 1) hi = Some h \<longrightarrow> k \<le> h"
    "list_all c (take k p)" "rx_accepts r (drop k p)"
    unfolding rx_accepts_Rep by blast
  show ?thesis
    unfolding rx_accepts_Rep
  proof (intro exI[of _ "Suc k"] conjI allI impI)
    show "Suc k \<le> length (x # p)" using k(1) by simp
    show "lo \<le> Suc k" using k(2) by simp
    show "list_all c (take (Suc k) (x # p))" using k(4) assms(2) by simp
    show "rx_accepts r (drop (Suc k) (x # p))" using k(5) by simp
    fix h assume h: "hi = Some h"
    with assms(3) have "h \<noteq> 0" by simp
    moreover from k(3) h have "k \<le> h - 1" by simp
    ultimately show "Suc k \<le> h" by simp
  qed
qed

lemma rx_match_sound:
  "rx_match r eol s = Some t \<Longrightarrow> \<exists>p. s = p @ t \<and> rx_accepts r p \<and> (eol \<longrightarrow> t = [])"
proof (induction r eol s arbitrary: t rule: rx_match.induct)
  case (1 eol s)
  then show ?case by (auto split: if_splits)
next
  case (2 c lo hi r eol s)
  let ?inner = "case s of [] \<Rightarrow> None
       | x # xs \<Rightarrow>
           if c x \<and> hi \<noteq> Some 0
           then rx_match (Rep c (lo - 1) (map_option (\<lambda>h. h - 1) hi) # r) eol xs
           else None"
  from "2.prems" have step:
    "(case ?inner of Some t \<Rightarrow> Some t | None \<Rightarrow> if lo = 0 then rx_match r eol s else None) = Some t"
    by simp
  show ?case
  proof (cases ?inner)
    case None
    with step have lo: "lo = 0" and m: "rx_match r eol s = Some t"
      by (simp_all split: if_splits)
    from "2.IH"(2)[OF None lo m] obtain p where
      p: "s = p @ t" "rx_accepts r p" "eol \<longrightarrow> t = []"
      by blast
    from p(2) lo have "rx_accepts (Rep c lo hi # r) p"
      by (simp only: rx_accepts_skip)
    with p show ?thesis by blast
  next
    case (Some t')
    with step have t': "t' = t" by simp
    from Some obtain x xs where s: "s = x # xs" and cx: "c x \<and> hi \<noteq> Some 0"
      and m: "rx_match (Rep c (lo - 1) (map_option (\<lambda>h. h - 1) hi) # r) eol xs = Some t'"
      by (cases s) (auto split: if_splits)
    from "2.IH"(1)[OF s cx m] t' obtain p where
      p: "xs = p @ t" "rx_accepts (Rep c (lo - 1) (map_option (\<lambda>h. h - 1) hi) # r) p"
         "eol \<longrightarrow> t = []"
      by blast
    from p(2) cx have "rx_accepts (Rep c lo hi # r) (x # p)"
      by (intro rx_accepts_more) simp_all
    with p s show ?thesis by (intro exI[of _ "x # p"]) simp
  qed
qed

lemma rx_match_complete:
  "rx_match r eol s = None \<Longrightarrow> rx_accepts r p \<Longrightarrow> s = p @ t \<Longrightarrow> (eol \<longrightarrow> t = []) \<Longrightarrow> False"
proof (induction r eol s arbitrary: p rule: rx_match.induct)
  case (1 eol s)
  then show ?case by (auto split: if_splits)
next
  case (2 c lo hi r eol s)
  let ?inner = "case s of [] \<Rightarrow> None
       | x # xs \<Rightarrow>
           if c x \<and> hi \<noteq> Some 0
           then rx_match (Rep c (lo - 1) (map_option (\<lambda>h. h - 1) hi) # r) eol xs
           else None"
  from "2.prems"(1) have step:
    "(case ?inner of Some t \<Rightarrow> Some t | None \<Rightarrow> if lo = 0 then rx_match r eol s else None) = None"
    by simp
  then have inner: "?inner = None" by (simp split: option.splits)
  with step have stop: "lo = 0 \<longrightarrow> rx_match r eol s = None" by (simp split: if_splits)
  from "2.prems"(2) obtain k where k: "k \<le> length p" "lo \<le> k"
    "\<forall>h. hi = Some h \<longrightarrow> k \<le> h" "list_all c (take k p)" "rx_accepts r (drop k p)"
    unfolding rx_accepts_Rep by blast
  show ?case
  proof (cases k)
    case 0
    with k have lo: "lo = 0" and acc: "rx_accepts r p" by simp_all
    from stop lo have "rx_match r eol s = None" by simp
    from "2.IH"(2)[OF inner lo this acc "2.prems"(3,4)] show False .
  next
    case (Suc k')
    with k(1) obtain x p' where p: "p = x # p'" by (cases p) auto
    with "2.prems"(3) have s: "s = x # (p' @ t)" by simp
    from k(4) p Suc have cx: "c x" by simp
    from k(3) Suc have hi: "hi \<noteq> Some 0" by auto
    from inner s cx hi have
      m: "rx_match (Rep c (lo - 1) (map_option (\<lambda>h. h - 1) hi) # r) eol (p' @ t) = None"
      by simp
    have "rx_accepts (Rep c (lo - 1) (map_option (\<lambda>h. h - 1) hi) # r) p'"
      unfolding rx_accepts_Rep
    proof (intro exI[of _ k'] conjI allI impI)
      show "k' \<le> length p'" using k(1) p Suc by simp
      show "lo - 1 \<le> k'" using k(2) Suc by simp
      show "list_all c (take k' p')" using k(4) p Suc by simp
      show "rx_accepts r (drop k' p')" using k(5) p Suc by simp
      fix h assume "map_option (\<lambda>h. h - 1) hi = Some h"
      then obtain h' where "hi = Some h'" "h = h' - 1" by auto
      with k(3) Suc show "k' \<le> h" by auto
    qed
    from "2.IH"(1)[OF s _ m this refl "2.prems"(4)] cx hi show False by simp
  qed
qed

section \<open>Removing the matches of an anchored pattern\<close>

declare ReplaceAllString_empty.simps [simp del]

lemma ReplaceAllString_empty_Nil: "ReplaceAllString_empty re at0 [] = []"
  by (subst ReplaceAllString_empty.simps) (simp split: option.splits)

lemma ReplaceAllString_empty_past_start:
  "anchored_start re \<Longrightarrow> ReplaceAllString_empty re False s = s"
proof (induction s)
  case Nil
  show ?case by (rule ReplaceAllString_empty_Nil)
next
  case (Cons x xs)
  then show ?case by (subst ReplaceAllString_empty.simps) simp
qed

lemma ReplaceAllString_empty_anchored_start:
  assumes "anchored_start re"
  shows "ReplaceAllString_empty re True s =
           (case rx_match (items re) (anchored_end re) s of Some t \<Rightarrow> t | None \<Rightarrow> s)"
proof (cases "rx_match (items re) (anchored_end re) s")
  case None
  then show ?thesis
    using assms
    by (subst ReplaceAllString_empty.simps)
       (simp add: ReplaceAllString_empty_past_start split: list.splits)
next
  case (Some t)
  then obtain p where p: "s = p @ t" using rx_match_sound by blast
  show ?thesis
  proof (cases "length t < length s")
    case True
    with Some assms show ?thesis
      by (subst ReplaceAllString_empty.simps) (simp add: ReplaceAllString_empty_past_start)
  next
    case False
    with p have "t = s" by simp
    with Some False assms show ?thesis
      by (subst ReplaceAllString_empty.simps)
         (simp add: ReplaceAllString_empty_past_start split: list.splits)
  qed
qed

lemma ReplaceAllString_empty_anchored_end:
  assumes re: "\<not> anchored_start re" "anchored_end re" and nonempty: "\<not> rx_accepts (items re) []"
  shows "\<exists>suf. s = ReplaceAllString_empty re at0 s @ suf
           \<and> (suf \<noteq> [] \<longrightarrow> rx_accepts (items re) suf)
           \<and> (\<forall>k<length (ReplaceAllString_empty re at0 s). \<not> rx_accepts (items re) (drop k s))"
proof (induction s arbitrary: at0)
  case Nil
  show ?case by (simp add: ReplaceAllString_empty_Nil)
next
  case (Cons x xs)
  show ?case
  proof (cases "rx_match (items re) True (x # xs)")
    case (Some t)
    from rx_match_sound[OF Some] obtain p where p: "x # xs = p @ t" "rx_accepts (items re) p" "t = []"
      by blast
    then have whole: "rx_accepts (items re) (x # xs)" by simp
    from Some p(3) re have "ReplaceAllString_empty re at0 (x # xs) = []"
      by (subst ReplaceAllString_empty.simps) (simp add: ReplaceAllString_empty_Nil)
    with whole show ?thesis by simp
  next
    case None
    with re have unfold: "ReplaceAllString_empty re at0 (x # xs) = x # ReplaceAllString_empty re False xs"
      by (subst ReplaceAllString_empty.simps) simp
    from Cons.IH[of False] obtain suf where suf: "xs = ReplaceAllString_empty re False xs @ suf"
      "suf \<noteq> [] \<longrightarrow> rx_accepts (items re) suf"
      "\<forall>k<length (ReplaceAllString_empty re False xs). \<not> rx_accepts (items re) (drop k xs)"
      by blast
    have here: "\<not> rx_accepts (items re) (x # xs)"
      using rx_match_complete[OF None, of "x # xs" "[]"] by auto
    have "\<forall>k<length (x # ReplaceAllString_empty re False xs). \<not> rx_accepts (items re) (drop k (x # xs))"
    proof (intro allI impI)
      fix k assume k: "k < length (x # ReplaceAllString_empty re False xs)"
      show "\<not> rx_accepts (items re) (drop k (x # xs))"
      proof (cases k)
        case 0
        with here show ?thesis by simp
      next
        case (Suc k')
        with k suf(3) show ?thesis by simp
      qed
    qed
    with suf(1,2) show ?thesis
      unfolding unfold by (intro exI[of _ suf]) simp
  qed
qed

section \<open>The two patterns of the normalizer\<close>

declare rx_accepts.simps(2) [simp del]

lemma year_token_length: "rx_accepts (items rx_year) p \<Longrightarrow> 4 \<le> length p"
  unfolding rx_year_def by (auto simp: rx_accepts_Rep)

lemma grade_token_nonempty: "\<not> rx_accepts (items rx_grade) []"
  unfolding rx_grade_def by (auto simp: rx_accepts_Rep)

lemma has_year_token_iff:
  "has_year_token s \<longleftrightarrow> (\<exists>k\<le>length s. rx_accepts (items rx_year) (take k s))"
  unfolding has_year_token_def by (rule list_ex_upt_Suc)

lemma has_grade_token_iff:
  "has_grade_token s \<longleftrightarrow> (\<exists>k\<le>length s. rx_accepts (items rx_grade) (drop k s))"
  unfolding has_grade_token_def by (rule list_ex_upt_Suc)

lemma strip_year:
  "\<exists>pre. s = pre @ ReplaceAllString_empty rx_year True s
      \<and> (if has_year_token s then rx_accepts (items rx_year) pre else pre = [])"
proof -
  have anchored: "anchored_start rx_year" "\<not> anchored_end rx_year"
    by (simp_all add: rx_year_def)
  show ?thesis
  proof (cases "rx_match (items rx_year) False s")
    case None
    have "\<not> has_year_token s"
    proof
      assume "has_year_token s"
      then obtain k where "rx_accepts (items rx_year) (take k s)"
        unfolding has_year_token_iff by blast
      from rx_match_complete[OF None this, of "drop k s"] show False by simp
    qed
    moreover from None anchored have "ReplaceAllString_empty rx_year True s = s"
      by (simp add: ReplaceAllString_empty_anchored_start)
    ultimately show ?thesis by simp
  next
    case (Some t)
    from rx_match_sound[OF Some] obtain p where p: "s = p @ t" "rx_accepts (items rx_year) p"
      by blast
    from p have "rx_accepts (items rx_year) (take (length p) s)" by simp
    then have "has_year_token s"
      unfolding has_year_token_iff using p(1) by (intro exI[of _ "length p"]) simp
    moreover from Some anchored have "ReplaceAllString_empty rx_year True s = t"
      by (simp add: ReplaceAllString_empty_anchored_start)
    ultimately show ?thesis using p by simp
  qed
qed

lemma strip_grade:
  "\<exists>suf. s = ReplaceAllString_empty rx_grade True s @ suf
      \<and> (if has_grade_token s then rx_accepts (items rx_grade) suf else suf = [])
      \<and> (\<forall>k<length (ReplaceAllString_empty rx_grade True s).
            \<not> rx_accepts (items rx_grade) (drop k s))"
proof -
  let ?r = "ReplaceAllString_empty rx_grade True s"
  have "\<not> anchored_start rx_grade" "anchored_end rx_grade"
    by (simp_all add: rx_grade_def)
  from ReplaceAllString_empty_anchored_end[OF this grade_token_nonempty, of s True]
  obtain suf where suf: "s = ?r @ suf" "suf \<noteq> [] \<longrightarrow> rx_accepts (items rx_grade) suf"
    "\<forall>k<length ?r. \<not> rx_accepts (items rx_grade) (drop k s)"
    by blast
  have "has_grade_token s \<longleftrightarrow> suf \<noteq> []"
  proof
    assume "has_grade_token s"
    then obtain k where k: "k \<le> length s" "rx_accepts (items rx_grade) (drop k s)"
      unfolding has_grade_token_iff by blast
    show "suf \<noteq> []"
    proof
      assume "suf = []"
      with suf(1) have "length ?r = length s" by simp
      with suf(3) k(2) have "\<not> k < length s" by auto
      with k(1) have "drop k s = []" by simp
      with k(2) grade_token_nonempty show False by simp
    qed
  next
    assume ne: "suf \<noteq> []"
    from suf(1) have "drop (length ?r) s = suf"
      by (metis append_eq_conv_conj)
    with ne suf(2) have "rx_accepts (items rx_grade) (drop (length ?r) s)" by simp
    moreover from suf(1) have "length ?r \<le> length s"
      by (metis length_append le_add1)
    ultimately show "has_grade_token s"
      unfolding has_grade_token_iff by blast
  qed
  with suf show ?thesis by (intro exI[of _ suf]) auto
qed

lemma normalizeCoinType_eq:
  "normalizeCoinType s =
     ReplaceAllString_empty rx_grade True (ReplaceAllString_empty rx_year True s)"
  by (simp add: normalizeCoinType_def Let_def)

lemma normalizeCoinType_fixed_point:
  "normalizeCoinType t = t \<longleftrightarrow> \<not> has_year_token t \<and> \<not> has_grade_token t"
proof
  assume "\<not> has_year_token t \<and> \<not> has_grade_token t"
  then have ny: "\<not> has_year_token t" and ng: "\<not> has_grade_token t" by simp_all
  from strip_year[of t] ny have "ReplaceAllString_empty rx_year True t = t" by simp
  moreover from strip_grade[of t] ng have "ReplaceAllString_empty rx_grade True t = t" by simp
  ultimately show "normalizeCoinType t = t" by (simp add: normalizeCoinType_eq)
next
  assume fixed: "normalizeCoinType t = t"
  let ?y = "ReplaceAllString_empty rx_year True t"
  from strip_year[of t] obtain pre where pre: "t = pre @ ?y"
    "if has_year_token t then rx_accepts (items rx_year) pre else pre = []"
    by blast
  from strip_grade[of ?y] obtain suf where suf:
    "?y = ReplaceAllString_empty rx_grade True ?y @ suf"
    "if has_grade_token ?y then rx_accepts (items rx_grade) suf else suf = []"
    by blast
  from suf(1) have "?y = normalizeCoinType t @ suf" by (simp add: normalizeCoinType_eq)
  with pre(1) fixed have "t = pre @ t @ suf" by simp
  then have "length t = length (pre @ t @ suf)"
    by (rule arg_cong)
  then have "length t = length pre + length t + length suf"
    by simp
  then have empty: "pre = []" "suf = []" by simp_all
  have ny: "\<not> has_year_token t"
  proof
    assume "has_year_token t"
    with pre(2) have "rx_accepts (items rx_year) pre" by simp
    from year_token_length[OF this] empty(1) show False by simp
  qed
  from pre(1) empty(1) have y: "?y = t" by simp
  have ng: "\<not> has_grade_token t"
  proof
    assume "has_grade_token t"
    with suf(2) y have "rx_accepts (items rx_grade) suf" by simp
    with empty(2) grade_token_nonempty show False by simp
  qed
  from ny ng show "\<not> has_year_token t \<and> \<not> has_grade_token t" by simp
qed

lemma has_year_token_strip:
  "has_year_token s \<longleftrightarrow> ReplaceAllString_empty rx_year True s \<noteq> s"
proof -
  from strip_year[of s] obtain pre where pre: "s = pre @ ReplaceAllString_empty rx_year True s"
    "if has_year_token s then rx_accepts (items rx_year) pre else pre = []"
    by blast
  from pre(1) have "length s = length pre + length (ReplaceAllString_empty rx_year True s)"
    by (metis length_append)
  then have "ReplaceAllString_empty rx_year True s \<noteq> s \<longleftrightarrow> pre \<noteq> []"
    using pre(1) by auto
  moreover have "has_year_token s \<longleftrightarrow> pre \<noteq> []"
    using pre(2) year_token_length[of pre] by (auto split: if_splits)
  ultimately show ?thesis by simp
qed

lemma has_grade_token_strip:
  "has_grade_token s \<longleftrightarrow> ReplaceAllString_empty rx_grade True s \<noteq> s"
proof -
  from strip_grade[of s] obtain suf where suf: "s = ReplaceAllString_empty rx_grade True s @ suf"
    "if has_grade_token s then rx_accepts (items rx_grade) suf else suf = []"
    by blast
  from suf(1) have "length s = length (ReplaceAllString_empty rx_grade True s) + length suf"
    by (metis length_append)
  then have "ReplaceAllString_empty rx_grade True s \<noteq> s \<longleftrightarrow> suf \<noteq> []"
    using suf(1) by auto
  moreover have "has_grade_token s \<longleftrightarrow> suf \<noteq> []"
    using suf(2) grade_token_nonempty by (auto split: if_splits)
  ultimately show ?thesis by simp
qed

lemmas normalizer_eval =
  normalizeCoinType_def rx_year_def rx_grade_def
  cls_digit_def cls_space_def cls_upper_def cls_dash_space_def ReplaceAllString_empty.simps

text \<open>
  A remark on the year pattern: its optional mint-mark letter also takes the first
  capital of the coin name when the title has no mint mark.
\<close>

lemma normalizeCoinType_takes_initial:
  "normalizeCoinType ''1921 Peace Dollar MS67'' = ''eace Dollar''"
  by (simp add: normalizer_eval)

section \<open>The matches removed are the longest tokens\<close>

lemma find_rev_upt_greatest:
  "k \<le> n \<Longrightarrow> P k \<Longrightarrow> \<forall>j. k < j \<and> j \<le> n \<longrightarrow> \<not> P j \<Longrightarrow> find P (rev [0..<Suc n]) = Some k"
proof (induction n)
  case 0
  then show ?case by simp
next
  case (Suc n)
  show ?case
  proof (cases "k = Suc n")
    case True
    with Suc.prems show ?thesis by simp
  next
    case False
    with Suc.prems have "k \<le> n" and "\<not> P (Suc n)" by auto
    moreover from Suc.prems have "\<forall>j. k < j \<and> j \<le> n \<longrightarrow> \<not> P j" by auto
    ultimately show ?thesis using Suc.IH Suc.prems(2) by simp
  qed
qed

lemma find_upt_least:
  "k \<le> n \<Longrightarrow> P k \<Longrightarrow> \<forall>j<k. \<not> P j \<Longrightarrow> find P [0..<Suc n] = Some k"
  unfolding find_Some_iff
  by (intro exI[of _ k]) (auto simp del: upt_Suc)

lemma find_upt_none:
  "find P [0..<Suc n] = None \<longleftrightarrow> \<not> list_ex P [0..<Suc n]"
  by (auto simp del: upt_Suc simp: find_None_iff list_ex_iff)

lemma find_rev_upt_none:
  "find P (rev [0..<Suc n]) = None \<longleftrightarrow> \<not> list_ex P [0..<Suc n]"
  by (auto simp del: upt_Suc simp: find_None_iff list_ex_iff)

lemma take_all_takeWhile:
  "k \<le> length s \<Longrightarrow> list_all P (take k s) \<Longrightarrow> k \<le> length (takeWhile P s)"
proof (induction s arbitrary: k)
  case Nil
  then show ?case by simp
next
  case (Cons x xs)
  then show ?case by (cases k) auto
qed

lemma rx_match_zero: "rx_match (Rep c 0 (Some 0) # r) eol s = rx_match r eol s"
  by (cases s) simp_all

lemma rx_match_optional:
  "rx_match (Rep c 0 (Some 1) # r) eol s =
     (case s of
        [] \<Rightarrow> rx_match r eol s
      | x # xs \<Rightarrow>
          if c x then (case rx_match r eol xs of Some t \<Rightarrow> Some t | None \<Rightarrow> rx_match r eol s)
          else rx_match r eol s)"
proof (cases s)
  case Nil
  show ?thesis unfolding Nil by (subst rx_match.simps(2)) simp
next
  case (Cons x xs)
  show ?thesis unfolding Cons
    by (subst rx_match.simps(2)) (simp add: rx_match_zero del: rx_match.simps)
qed

lemma rx_match_exactly:
  "rx_match (Rep c n (Some n) # r) eol s =
     (if n \<le> length s \<and> list_all c (take n s) then rx_match r eol (drop n s) else None)"
proof (induction n arbitrary: s)
  case 0
  show ?case unfolding rx_match_zero by simp
next
  case (Suc n)
  show ?case
  proof (cases s)
    case Nil
    show ?thesis unfolding Nil by (subst rx_match.simps(2)) simp
  next
    case (Cons x xs)
    show ?thesis unfolding Cons
      by (subst rx_match.simps(2))
         (simp add: Suc.IH del: rx_match.simps split: option.splits)
  qed
qed

lemma rx_match_star: "rx_match [Rep c 0 None] False s = Some (dropWhile c s)"
  by (induction s) simp_all

lemma rx_accepts_star: "rx_accepts [Rep c 0 None] w \<longleftrightarrow> list_all c w"
proof
  assume "rx_accepts [Rep c 0 None] w"
  then obtain k where "k \<le> length w" "list_all c (take k w)" "drop k w = []"
    unfolding rx_accepts_Rep by auto
  then show "list_all c w" by simp
next
  assume "list_all c w"
  then show "rx_accepts [Rep c 0 None] w"
    unfolding rx_accepts_Rep by (intro exI[of _ "length w"]) simp
qed

lemma rx_accepts_optional:
  "rx_accepts (Rep c 0 (Some 1) # r) w \<longleftrightarrow>
     rx_accepts r w \<or> (\<exists>x w'. w = x # w' \<and> c x \<and> rx_accepts r w')"
proof
  assume "rx_accepts (Rep c 0 (Some 1) # r) w"
  then obtain k where k: "k \<le> length w" "k \<le> 1" "list_all c (take k w)" "rx_accepts r (drop k w)"
    unfolding rx_accepts_Rep by auto
  show "rx_accepts r w \<or> (\<exists>x w'. w = x # w' \<and> c x \<and> rx_accepts r w')"
  proof (cases k)
    case 0
    with k(4) show ?thesis by simp
  next
    case (Suc k')
    with k(2) have one: "k = 1" by simp
    with k(1) obtain x w' where "w = x # w'" by (cases w) auto
    with one k(3,4) show ?thesis by simp
  qed
next
  assume "rx_accepts r w \<or> (\<exists>x w'. w = x # w' \<and> c x \<and> rx_accepts r w')"
  then show "rx_accepts (Rep c 0 (Some 1) # r) w"
  proof
    assume "rx_accepts r w"
    then show ?thesis by (rule rx_accepts_skip)
  next
    assume "\<exists>x w'. w = x # w' \<and> c x \<and> rx_accepts r w'"
    then obtain x w' where "w = x # w'" "c x" "rx_accepts r w'" by blast
    then show ?thesis
      unfolding rx_accepts_Rep by (intro exI[of _ 1]) simp
  qed
qed

lemma rx_accepts_exactly:
  "rx_accepts (Rep c n (Some n) # r) w \<longleftrightarrow>
     n \<le> length w \<and> list_all c (take n w) \<and> rx_accepts r (drop n w)"
  unfolding rx_accepts_Rep by auto

text \<open>
  Greedy repetition against any other way to accept a prefix, layer by layer from
  the end of the year pattern: trailing whitespace, the optional mint-mark letter,
  the optional separator, the four digits.
\<close>

lemma star_longest:
  assumes "rx_match [Rep w 0 None] False s = Some t"
    and "k \<le> length s" and "rx_accepts [Rep w 0 None] (take k s)"
  shows "k + length t \<le> length s"
proof -
  from assms(1) have t: "t = dropWhile w s" by (simp only: rx_match_star option.inject)
  from assms(3) have "list_all w (take k s)" by (simp only: rx_accepts_star)
  with assms(2) have "k \<le> length (takeWhile w s)" by (rule take_all_takeWhile)
  moreover have "length (takeWhile w s) + length (dropWhile w s) = length s"
    by (metis length_append takeWhile_dropWhile_id)
  ultimately show ?thesis unfolding t by simp
qed

lemma optional_star_total: "\<exists>t. rx_match [Rep u 0 (Some 1), Rep w 0 None] False s = Some t"
  unfolding rx_match_optional rx_match_star by (simp split: list.splits)

lemma optional_star_longest:
  assumes disjoint: "\<And>x. u x \<Longrightarrow> \<not> w x"
    and m: "rx_match [Rep u 0 (Some 1), Rep w 0 None] False s = Some t"
    and k: "k \<le> length s" and acc: "rx_accepts [Rep u 0 (Some 1), Rep w 0 None] (take k s)"
  shows "k + length t \<le> length s"
proof (cases s)
  case Nil
  with k m show ?thesis by simp
next
  case (Cons y s')
  from acc consider (skip) "rx_accepts [Rep w 0 None] (take k s)"
    | (letter) x q where "take k s = x # q" "u x" "rx_accepts [Rep w 0 None] q"
    unfolding rx_accepts_optional by blast
  then show ?thesis
  proof cases
    case skip
    show ?thesis
    proof (cases "u y")
      case True
      have "k = 0"
      proof (rule ccontr)
        assume "k \<noteq> 0"
        then obtain k' where "k = Suc k'" by (cases k) auto
        with skip Cons have "w y" by (simp add: rx_accepts_star)
        with disjoint[OF True] show False by simp
      qed
      moreover from m obtain p where "s = p @ t" using rx_match_sound by blast
      then have "length t \<le> length s" by simp
      ultimately show ?thesis by simp
    next
      case False
      with m Cons have "rx_match [Rep w 0 None] False s = Some t"
        by (simp add: rx_match_optional[unfolded One_nat_def] del: rx_match.simps)
      from star_longest[OF this k skip] show ?thesis .
    qed
  next
    case letter
    from letter(1) Cons obtain k' where k': "k = Suc k'" "x = y" "q = take k' s'"
      by (cases k) auto
    with letter(2) m Cons have "rx_match [Rep w 0 None] False s' = Some t"
      by (simp add: rx_match_optional[unfolded One_nat_def] rx_match_star del: rx_match.simps)
    moreover from k k' Cons have "k' \<le> length s'" by simp
    moreover from letter(3) k' have "rx_accepts [Rep w 0 None] (take k' s')" by simp
    ultimately have "k' + length t \<le> length s'" by (rule star_longest)
    with k' Cons show ?thesis by simp
  qed
qed

lemma optional_optional_star_longest:
  assumes su: "\<And>x. sp x \<Longrightarrow> \<not> u x" and uw: "\<And>x. u x \<Longrightarrow> \<not> w x"
    and m: "rx_match [Rep sp 0 (Some 1), Rep u 0 (Some 1), Rep w 0 None] False s = Some t"
    and k: "k \<le> length s"
    and acc: "rx_accepts [Rep sp 0 (Some 1), Rep u 0 (Some 1), Rep w 0 None] (take k s)"
  shows "k + length t \<le> length s"
proof -
  let ?r = "[Rep u 0 (Some 1), Rep w 0 None]"
  from acc consider (skip) "rx_accepts ?r (take k s)"
    | (sep) x q where "take k s = x # q" "sp x" "rx_accepts ?r q"
    unfolding rx_accepts_optional[of sp] by blast
  then show ?thesis
  proof cases
    case sep
    from sep(1) obtain k' s' where k': "k = Suc k'" "s = x # s'" "q = take k' s'"
      by (cases k; cases s) auto
    obtain t' where t': "rx_match ?r False s' = Some t'"
      using optional_star_total by blast
    with sep(2) m k'(2) have "rx_match ?r False s' = Some t"
      by (simp add: rx_match_optional[of sp, unfolded One_nat_def] del: rx_match.simps)
    moreover from k k' have "k' \<le> length s'" by simp
    moreover from sep(3) k' have "rx_accepts ?r (take k' s')" by simp
    ultimately have "k' + length t \<le> length s'"
      by (intro optional_star_longest[OF uw])
    with k' show ?thesis by simp
  next
    case skip
    show ?thesis
    proof (cases s)
      case Nil
      with k m show ?thesis by simp
    next
      case (Cons x s')
      show ?thesis
      proof (cases "sp x")
        case False
        with m Cons have "rx_match ?r False s = Some t"
          by (simp add: rx_match_optional[of sp, unfolded One_nat_def] del: rx_match.simps)
        from optional_star_longest[OF uw this k skip] show ?thesis .
      next
        case True
        obtain t' where t': "rx_match ?r False s' = Some t'"
          using optional_star_total by blast
        with True m Cons have ms': "rx_match ?r False s' = Some t"
          by (simp add: rx_match_optional[of sp, unfolded One_nat_def] del: rx_match.simps)
        show ?thesis
        proof (cases k)
          case 0
          from m obtain p where "s = p @ t" using rx_match_sound by blast
          then have "length t \<le> length s" by simp
          with 0 show ?thesis by simp
        next
          case (Suc k')
          from skip have "rx_accepts [Rep w 0 None] (take k s)
              \<or> (\<exists>y q. take k s = y # q \<and> u y \<and> rx_accepts [Rep w 0 None] q)"
            by (simp only: rx_accepts_optional)
          moreover have "\<not> (\<exists>y q. take k s = y # q \<and> u y \<and> rx_accepts [Rep w 0 None] q)"
            using su[OF True] Suc Cons by auto
          ultimately have "rx_accepts [Rep w 0 None] (take k s)" by blast
          then have "list_all w (take k s)" by (simp only: rx_accepts_star)
          with Suc Cons have "list_all w (take k' s')" by simp
          then have "rx_accepts [Rep w 0 None] (take k' s')"
            by (simp only: rx_accepts_star)
          then have "rx_accepts ?r (take k' s')"
            by (rule rx_accepts_skip)
          moreover from k Suc Cons have "k' \<le> length s'" by simp
          ultimately have "k' + length t \<le> length s'"
            using ms' by (intro optional_star_longest[OF uw])
          with Suc Cons show ?thesis by simp
        qed
      qed
    qed
  qed
qed

lemma upper_not_space: "cls_upper x \<Longrightarrow> \<not> cls_space x"
  by (auto simp: cls_upper_def cls_space_def)

lemma dash_space_not_upper: "cls_dash_space x \<Longrightarrow> \<not> cls_upper x"
  by (auto simp: cls_upper_def cls_space_def cls_dash_space_def)

lemma year_match_longest:
  assumes m: "rx_match (items rx_year) False s = Some t"
    and k: "k \<le> length s" and acc: "rx_accepts (items rx_year) (take k s)"
  shows "k + length t \<le> length s"
proof -
  let ?r = "[Rep cls_dash_space 0 (Some 1), Rep cls_upper 0 (Some 1), Rep cls_space 0 None]"
  have items: "items rx_year = Rep cls_digit 4 (Some 4) # ?r"
    by (simp add: rx_year_def)
  from m have digits: "4 \<le> length s" and rest: "rx_match ?r False (drop 4 s) = Some t"
    unfolding items rx_match_exactly by (simp_all split: if_splits)
  from acc have k4: "4 \<le> k" and "rx_accepts ?r (drop 4 (take k s))"
    unfolding items rx_accepts_exactly using k by simp_all
  then have "rx_accepts ?r (take (k - 4) (drop 4 s))"
    by (simp add: drop_take)
  moreover from k have "k - 4 \<le> length (drop 4 s)" by simp
  ultimately have "k - 4 + length t \<le> length (drop 4 s)"
    using rest by (intro optional_optional_star_longest[OF dash_space_not_upper upper_not_space])
  with k4 digits show ?thesis by simp
qed

lemma strip_year_longest:
  "ReplaceAllString_empty rx_year True s =
     (case longest_year_token s of None \<Rightarrow> s | Some k \<Rightarrow> drop k s)"
proof -
  have anchored: "anchored_start rx_year" "\<not> anchored_end rx_year"
    by (simp_all add: rx_year_def)
  let ?P = "\<lambda>k. rx_accepts (items rx_year) (take k s)"
  show ?thesis
  proof (cases "rx_match (items rx_year) False s")
    case None
    have "\<not> has_year_token s"
    proof
      assume "has_year_token s"
      then obtain k where "rx_accepts (items rx_year) (take k s)"
        unfolding has_year_token_iff by blast
      from rx_match_complete[OF None this, of "drop k s"] show False by simp
    qed
    then have "longest_year_token s = None"
      unfolding longest_year_token_def has_year_token_def by (simp only: find_rev_upt_none simp_thms)
    moreover from None anchored have "ReplaceAllString_empty rx_year True s = s"
      by (simp add: ReplaceAllString_empty_anchored_start)
    ultimately show ?thesis by simp
  next
    case (Some t)
    from rx_match_sound[OF Some] obtain p where p: "s = p @ t" "rx_accepts (items rx_year) p"
      by blast
    from p have here: "?P (length p)" and le: "length p \<le> length s" by simp_all
    have above: "\<forall>j. length p < j \<and> j \<le> length s \<longrightarrow> \<not> ?P j"
    proof (intro allI impI notI)
      fix j assume j: "length p < j \<and> j \<le> length s" and "?P j"
      with year_match_longest[OF Some, of j] have "j + length t \<le> length s" by simp
      with p(1) j show False by simp
    qed
    from find_rev_upt_greatest[of "length p" "length s" ?P, OF le here above]
    have "longest_year_token s = Some (length p)"
      unfolding longest_year_token_def .
    moreover from Some anchored have "ReplaceAllString_empty rx_year True s = t"
      by (simp add: ReplaceAllString_empty_anchored_start)
    ultimately show ?thesis using p(1) by simp
  qed
qed

lemma strip_grade_longest:
  "ReplaceAllString_empty rx_grade True s =
     (case longest_grade_token s of None \<Rightarrow> s | Some k \<Rightarrow> take k s)"
proof -
  let ?r = "ReplaceAllString_empty rx_grade True s"
  let ?P = "\<lambda>k. rx_accepts (items rx_grade) (drop k s)"
  from strip_grade[of s] obtain suf where suf: "s = ?r @ suf"
    "if has_grade_token s then rx_accepts (items rx_grade) suf else suf = []"
    "\<forall>k<length ?r. \<not> ?P k"
    by blast
  show ?thesis
  proof (cases "has_grade_token s")
    case False
    then have "longest_grade_token s = None"
      unfolding longest_grade_token_def has_grade_token_def by (simp only: find_upt_none simp_thms)
    moreover from False suf(1,2) have "?r = s" by simp
    ultimately show ?thesis by simp
  next
    case True
    from suf(1) have there: "drop (length ?r) s = suf" and le: "length ?r \<le> length s"
      by (metis append_eq_conv_conj, metis length_append le_add1)
    from True suf(2) there have here: "?P (length ?r)" by simp
    from find_upt_least[of "length ?r" "length s" ?P, OF le here suf(3)]
    have "longest_grade_token s = Some (length ?r)"
      unfolding longest_grade_token_def .
    moreover from suf(1) have "take (length ?r) s = ?r"
      by (metis append_eq_conv_conj)
    ultimately show ?thesis by simp
  qed
qed

lemma normalizeCoinType_strip_tokens: "normalizeCoinType s = strip_tokens s"
  unfolding normalizeCoinType_eq strip_tokens_def Let_def
  by (simp only: strip_year_longest strip_grade_longest)

text \<open>Acceptance character by character, for evaluating the token functions.\<close>

lemma rx_accepts_Nil:
  "rx_accepts (Rep c lo hi # r) [] \<longleftrightarrow> lo = 0 \<and> rx_accepts r []"
  unfolding rx_accepts_Rep by auto

lemma rx_accepts_Cons:
  "rx_accepts (Rep c lo None # r) (x # w) \<longleftrightarrow>
     (lo = 0 \<and> rx_accepts r (x # w)) \<or> (c x \<and> rx_accepts (Rep c (lo - 1) None # r) w)"
proof
  assume "rx_accepts (Rep c lo None # r) (x # w)"
  then obtain k where k: "k \<le> length (x # w)" "lo \<le> k" "list_all c (take k (x # w))"
    "rx_accepts r (drop k (x # w))"
    unfolding rx_accepts_Rep by blast
  show "(lo = 0 \<and> rx_accepts r (x # w)) \<or> (c x \<and> rx_accepts (Rep c (lo - 1) None # r) w)"
  proof (cases k)
    case 0
    with k show ?thesis by simp
  next
    case (Suc k')
    with k have "c x" "k' \<le> length w" "lo - 1 \<le> k'" "list_all c (take k' w)"
      "rx_accepts r (drop k' w)" by simp_all
    then have "c x \<and> rx_accepts (Rep c (lo - 1) None # r) w"
      unfolding rx_accepts_Rep by blast
    then show ?thesis ..
  qed
next
  assume "(lo = 0 \<and> rx_accepts r (x # w)) \<or> (c x \<and> rx_accepts (Rep c (lo - 1) None # r) w)"
  then show "rx_accepts (Rep c lo None # r) (x # w)"
  proof
    assume "lo = 0 \<and> rx_accepts r (x # w)"
    then show ?thesis using rx_accepts_skip[of r "x # w" c None] by simp
  next
    assume "c x \<and> rx_accepts (Rep c (lo - 1) None # r) w"
    then show ?thesis using rx_accepts_more[of c lo None r w x] by simp
  qed
qed

lemmas token_eval =
  rx_year_def rx_grade_def cls_digit_def cls_space_def cls_upper_def cls_dash_space_def
  rx_accepts_exactly rx_accepts_optional[unfolded One_nat_def] rx_accepts_star
  rx_accepts_Nil rx_accepts_Cons

section \<open>Claims about the year-range resolver\<close>

text \<open>
  C4. When \<open>coinType\<close> has a registered year-rule set (entry \<open>k\<close> is the first entry
  of the rule table with that coin type) and the year lies in one of its ranges,
  \<open>GetCompositionByYear\<close> returns, with \<open>found = true\<close>, the composition of the
  first range in declaration order with \<open>StartYear \<le> year \<le> EndYear\<close>: range \<open>i\<close>
  contains the year and no earlier range does. The rule table is arbitrary, so
  overlapping ranges are covered.
\<close>

theorem GetCompositionByYear_first_match:
  assumes "k < length rules" and "CoinType (rules ! k) = coinType"
    and "\<forall>k'<k. CoinType (rules ! k') \<noteq> coinType"
    and "i < length (YearRanges (rules ! k))"
    and "StartYear (YearRanges (rules ! k) ! i) \<le> year
           \<and> year \<le> EndYear (YearRanges (rules ! k) ! i)"
    and "\<forall>j<i. \<not> (StartYear (YearRanges (rules ! k) ! j) \<le> year
                   \<and> year \<le> EndYear (YearRanges (rules ! k) ! j))"
  shows "GetCompositionByYear_tbl rules catalog coinType year =
           (Composition (YearRanges (rules ! k) ! i), True)"
  using GetCompositionByYear_tbl_first[OF assms(1-3)] scanYearRanges_first[OF assms(4-6)]
  by simp

text \<open>
  The overlapping ranges at year 1967 (the first-declared range wins), and the
  Kennedy Half Dollar of 1966 in the table of the source (second range).
\<close>

theorem GetCompositionByYear_first_match_witness:
  "GetCompositionByYear_tbl overlap_rules CommonCompositions ''Synthetic'' 1967 =
     (MetalComposition_zero\<lparr>Name := ''Synthetic (1960-1970)''\<rparr>, True)
   \<and> GetCompositionByYear ''Kennedy Half Dollar'' 1966 =
     (MetalComposition_zero\<lparr>Name := ''Kennedy Half Dollar (1965-1970)'',
        MetalType := ''silver'', Weight := 0.14792, Purity := 40,
        Description := ''1965-1970: Contains 0.14792 oz of silver (40% silver)''\<rparr>, True)"
proof
  show "GetCompositionByYear_tbl overlap_rules CommonCompositions ''Synthetic'' 1967 =
     (MetalComposition_zero\<lparr>Name := ''Synthetic (1960-1970)''\<rparr>, True)"
    using GetCompositionByYear_first_match
      [of 0 overlap_rules "''Synthetic''" 0 1967 CommonCompositions]
    by (simp add: overlap_rules_def)
  show "GetCompositionByYear ''Kennedy Half Dollar'' 1966 =
     (MetalComposition_zero\<lparr>Name := ''Kennedy Half Dollar (1965-1970)'',
        MetalType := ''silver'', Weight := 0.14792, Purity := 40,
        Description := ''1965-1970: Contains 0.14792 oz of silver (40% silver)''\<rparr>, True)"
    using GetCompositionByYear_first_match
      [of 0 YearBasedCompositions "''Kennedy Half Dollar''" 1 1966 CommonCompositions]
    by (simp add: GetCompositionByYear_def YearBasedCompositions_def)
qed

text \<open>
  C8. When \<open>coinType\<close> has a registered year-rule set (entry \<open>k\<close> is the first entry
  with that coin type) and the year lies in none of its ranges, the result is exactly
  that entry's \<open>DefaultComp\<close> with \<open>found = true\<close>. This holds for every year, the
  positive ones in particular.
\<close>

theorem GetCompositionByYear_default:
  assumes "k < length rules" and "CoinType (rules ! k) = coinType"
    and "\<forall>k'<k. CoinType (rules ! k') \<noteq> coinType"
    and "list_all (\<lambda>yr. \<not> (StartYear yr \<le> year \<and> year \<le> EndYear yr))
           (YearRanges (rules ! k))"
  shows "GetCompositionByYear_tbl rules catalog coinType year = (DefaultComp (rules ! k), True)"
  using GetCompositionByYear_tbl_first[OF assms(1-3)] scanYearRanges_none[OF assms(4)]
  by simp

text \<open>The Washington Quarter of 1965: second entry of the table, after its only range.\<close>

theorem GetCompositionByYear_default_witness:
  "GetCompositionByYear ''Washington Quarter'' 1965 =
     (MetalComposition_zero\<lparr>Name := ''Washington Quarter (1965+)'',
        MetalType := ''copper'', Weight := 0, Purity := 0,
        Description := ''1965+: Copper-nickel clad, no precious metal content''\<rparr>, True)"
  using GetCompositionByYear_default
    [of 1 YearBasedCompositions "''Washington Quarter''" 1965 CommonCompositions]
  by (simp add: GetCompositionByYear_def YearBasedCompositions_def)

text \<open>
  C1, as stated, fails: \<open>GetCompositionByYear\<close> has no guard on the year. For the
  Kennedy Half Dollar and year 0 it scans the year rules, finds no range and returns
  the 1971+ default, while the static catalog holds the 1964 silver entry.
\<close>

theorem GetCompositionByYear_year_zero_counterexample:
  "GetCompositionByYear ''Kennedy Half Dollar'' 0 \<noteq> GetComposition ''Kennedy Half Dollar''"
  by (simp add: GetCompositionByYear_def GetComposition_def GetComposition_tbl_def
      YearBasedCompositions_def CommonCompositions_def MetalComposition_zero_def)

text \<open>
  C1, amended. For \<open>year \<le> 0\<close>, \<open>GetCompositionByYear\<close> returns the result of
  \<open>GetComposition\<close> exactly when the coin type has no registered year-rule set; when
  it has one, the result is that set's \<open>DefaultComp\<close> with \<open>found = true\<close> (every
  registered range starts at a positive year). The bypass for an unknown year is the
  callers' \<open>if coin.Year > 0\<close>.
\<close>

theorem GetCompositionByYear_nonpositive_year:
  "year \<le> 0 \<Longrightarrow>
   GetCompositionByYear coinType year =
     (case find (\<lambda>ybc. CoinType ybc = coinType) YearBasedCompositions of
        Some ybc \<Rightarrow> (DefaultComp ybc, True)
      | None \<Rightarrow> GetComposition coinType)"
  unfolding GetCompositionByYear_def GetComposition_def
  by (rule GetCompositionByYear_tbl_nonpositive[OF YearBasedCompositions_start_positive])

theorem GetCompositionByYear_nonpositive_year_witness:
  "GetCompositionByYear ''Kennedy Half Dollar'' 0 =
     (MetalComposition_zero\<lparr>Name := ''Kennedy Half Dollar (1971+)'',
        MetalType := ''copper'', Weight := 0, Purity := 0,
        Description := ''1971+: Copper-nickel clad, no precious metal content''\<rparr>, True)
   \<and> GetCompositionByYear ''Morgan Dollar'' (- 1) = GetComposition ''Morgan Dollar''"
  using GetCompositionByYear_nonpositive_year [of 0 "''Kennedy Half Dollar''"]
    GetCompositionByYear_nonpositive_year [of "- 1" "''Morgan Dollar''"]
  by (simp add: YearBasedCompositions_def)

section \<open>Claims about the spot price oracle\<close>






text \<open>
  C10. After \<open>UpdateSpotPricesManually\<close> the cached snapshot holds the four arguments
  as its precious-metal prices and the constants 5.52 and 6.96 as \<open>Copper\<close> and
  \<open>Nickel\<close>, whatever was cached before, and \<open>lastFetchTime\<close> is the current clock
  reading; a \<open>GetSpotPrices\<close> less than 15 minutes later returns this snapshot, changes
  nothing and sends no request.
\<close>

theorem UpdateSpotPricesManually_frame:
  "cachedPrices (UpdateSpotPricesManually st w gold silver platinum palladium) =
     Some \<lparr>Gold = gold, Silver = silver, Platinum = platinum, Palladium = palladium,
           Copper = 5.52, Nickel = 6.96, UpdatedAt = updated_clock w\<rparr>
   \<and> lastFetchTime (UpdateSpotPricesManually st w gold silver platinum palladium) = fetched_clock w
   \<and> (since_clock w' - fetched_clock w < cacheDuration \<longrightarrow>
        GetSpotPrices (UpdateSpotPricesManually st w gold silver platinum palladium) w' =
          ((Some \<lparr>Gold = gold, Silver = silver, Platinum = platinum, Palladium = palladium,
                  Copper = 5.52, Nickel = 6.96, UpdatedAt = updated_clock w\<rparr>, None),
           UpdateSpotPricesManually st w gold silver platinum palladium, []))"
  by (simp add: UpdateSpotPricesManually_def GetSpotPrices_def)

text \<open>
  An oracle holding live base-metal prices (copper 4.10, nickel 7.30) is overridden
  at clock reading 100 and read one minute later.
\<close>

theorem UpdateSpotPricesManually_frame_witness:
  "fst (GetSpotPrices (UpdateSpotPricesManually live_oracle (feeds_down 100) 2000 25 900 1000)
          (feeds_down 60000000100)) =
     (Some \<lparr>Gold = 2000, Silver = 25, Platinum = 900, Palladium = 1000,
            Copper = 5.52, Nickel = 6.96, UpdatedAt = 100\<rparr>, None)
   \<and> snd (snd (GetSpotPrices
          (UpdateSpotPricesManually live_oracle (feeds_down 100) 2000 25 900 1000)
          (feeds_down 60000000100))) = []"
  using UpdateSpotPricesManually_frame
    [of live_oracle "feeds_down 100" 2000 25 900 1000 "feeds_down 60000000100"]
  by (simp add: feeds_down_def cacheDuration_def)

section \<open>Claims about the melt value calculator\<close>

text \<open>
  C2, as stated, fails: for a metal type outside the six names of the \<open>switch\<close>,
  \<open>CalculateMeltValue\<close> takes the \<open>default\<close> branch and returns an error.
\<close>

theorem CalculateMeltValue_zinc_counterexample:
  "fst (CalculateMeltValue cold_oracle (feeds_down 5) ''zinc'' 1 90) =
     Inr (0, Some (Err ''unsupported metal type: zinc''))"
  by (simp add: CalculateMeltValue_def GetSpotPrices_def cold_oracle_def feeds_down_def
      fetchRealPrices_def fetchGoldPriceOrg_def fetchMetalsLive_def Let_def)

text \<open>
  C2, amended. For the metal types \<open>copper\<close> and \<open>nickel\<close> and every weight and
  purity, \<open>CalculateMeltValue\<close> returns exactly 0 and the nil error. For every other
  metal type outside gold, silver, platinum and palladium it returns 0 together with
  the error \<open>unsupported metal type: \<close> followed by the metal type.
\<close>

theorem CalculateMeltValue_outside_precious:
  "(metalType = ''copper'' \<or> metalType = ''nickel'' \<longrightarrow>
      fst (CalculateMeltValue st w metalType weight purity) = Inr (0, None))
   \<and> (metalType \<notin> {''gold'', ''silver'', ''platinum'', ''palladium'', ''copper'', ''nickel''} \<longrightarrow>
      fst (CalculateMeltValue st w metalType weight purity) =
        Inr (0, Some (Err (''unsupported metal type: '' @ metalType))))"
  by (intro conjI impI CalculateMeltValue_base_metal CalculateMeltValue_unsupported)

theorem CalculateMeltValue_outside_precious_witness:
  "fst (CalculateMeltValue live_oracle (feeds_down 7) ''copper'' 3 50) = Inr (0, None)
   \<and> fst (CalculateMeltValue live_oracle (feeds_down 7) ''tin'' 3 50) =
       Inr (0, Some (Err ''unsupported metal type: tin''))"
  using CalculateMeltValue_outside_precious [of "''copper''" live_oracle "feeds_down 7" 3 50]
    CalculateMeltValue_outside_precious [of "''tin''" live_oracle "feeds_down 7" 3 50]
  by simp

text \<open>
  C9, as stated, fails: a composition with non-negative fields whose metal type is
  not one of the six names of the \<open>switch\<close> (the all-zero composition has the empty
  metal type) makes the composition form return an error, and so does the raw-field
  form.
\<close>

theorem CalculateMeltValueFromComposition_error_counterexample:
  "fst (CalculateMeltValueFromComposition cold_oracle (feeds_down 5) MetalComposition_zero) =
     Inr (0, Some (Err ''unsupported metal type: ''))
   \<and> fst (CalculateMeltValue cold_oracle (feeds_down 5) ''bronze'' 1 95) =
     Inr (0, Some (Err ''unsupported metal type: bronze''))"
  by (simp add: CalculateMeltValueFromComposition_def CalculateMeltValue_def
      MetalComposition_zero_def GetSpotPrices_def cold_oracle_def feeds_down_def
      fetchRealPrices_def fetchGoldPriceOrg_def fetchMetalsLive_def Let_def)

text \<open>
  C9, amended. Let the snapshot that \<open>GetSpotPrices\<close> provides hold non-negative
  prices. Then for non-negative arguments the base-metal form, the raw-field form at a
  metal type among gold, silver, platinum, palladium, copper and nickel, and the
  composition form at a composition that is base metal or has such a metal type,
  return a non-negative number and the nil error. A composition with metal type
  \<open>copper\<close>, troy-ounce weight 0 and \<open>IsBaseMetal = false\<close> yields exactly 0. Numbers
  are real numbers here, so nothing is said about \<open>float64\<close> overflow.
\<close>

theorem melt_value_nonneg:
  assumes "fst (fst (GetSpotPrices st w)) = Some p"
    and "0 \<le> Gold p" "0 \<le> Silver p" "0 \<le> Platinum p" "0 \<le> Palladium p"
    and "0 \<le> Copper p" "0 \<le> Nickel p"
  shows
    "(0 \<le> weightGrams \<and> 0 \<le> copperPercent \<and> 0 \<le> nickelPercent \<longrightarrow>
        (\<exists>v. fst (CalculateBaseMeltValue st w weightGrams copperPercent nickelPercent) =
                Inr (v, None) \<and> 0 \<le> v))
     \<and> (0 \<le> weight \<and> 0 \<le> purity
         \<and> metalType \<in> {''gold'', ''silver'', ''platinum'', ''palladium'', ''copper'', ''nickel''} \<longrightarrow>
        (\<exists>v. fst (CalculateMeltValue st w metalType weight purity) = Inr (v, None) \<and> 0 \<le> v))
     \<and> (0 \<le> Weight c \<and> 0 \<le> Purity c \<and> 0 \<le> WeightGrams c
         \<and> 0 \<le> CopperPercent c \<and> 0 \<le> NickelPercent c
         \<and> (IsBaseMetal c
            \<or> MetalType c \<in> {''gold'', ''silver'', ''platinum'', ''palladium'', ''copper'', ''nickel''}) \<longrightarrow>
        (\<exists>v. fst (CalculateMeltValueFromComposition st w c) = Inr (v, None) \<and> 0 \<le> v))
     \<and> (MetalType c = ''copper'' \<and> Weight c = 0 \<and> \<not> IsBaseMetal c \<longrightarrow>
        fst (CalculateMeltValueFromComposition st w c) = Inr (0, None))"
proof (intro conjI impI)
  assume "0 \<le> weightGrams \<and> 0 \<le> copperPercent \<and> 0 \<le> nickelPercent"
  then show "\<exists>v. fst (CalculateBaseMeltValue st w weightGrams copperPercent nickelPercent) =
                Inr (v, None) \<and> 0 \<le> v"
    using CalculateBaseMeltValue_nonneg[OF assms(1,6,7)] by blast
next
  assume "0 \<le> weight \<and> 0 \<le> purity
         \<and> metalType \<in> {''gold'', ''silver'', ''platinum'', ''palladium'', ''copper'', ''nickel''}"
  then show "\<exists>v. fst (CalculateMeltValue st w metalType weight purity) = Inr (v, None) \<and> 0 \<le> v"
    using CalculateMeltValue_nonneg[OF assms(1-5)] by blast
next
  assume c: "0 \<le> Weight c \<and> 0 \<le> Purity c \<and> 0 \<le> WeightGrams c
         \<and> 0 \<le> CopperPercent c \<and> 0 \<le> NickelPercent c
         \<and> (IsBaseMetal c
            \<or> MetalType c \<in> {''gold'', ''silver'', ''platinum'', ''palladium'', ''copper'', ''nickel''})"
  show "\<exists>v. fst (CalculateMeltValueFromComposition st w c) = Inr (v, None) \<and> 0 \<le> v"
  proof (cases "IsBaseMetal c")
    case True
    then show ?thesis
      using c CalculateBaseMeltValue_nonneg[OF assms(1,6,7)]
      by (simp add: CalculateMeltValueFromComposition_def)
  next
    case False
    then show ?thesis
      using c CalculateMeltValue_nonneg[OF assms(1-5)]
      by (simp add: CalculateMeltValueFromComposition_def)
  qed
next
  assume "MetalType c = ''copper'' \<and> Weight c = 0 \<and> \<not> IsBaseMetal c"
  then show "fst (CalculateMeltValueFromComposition st w c) = Inr (0, None)"
    using CalculateMeltValue_base_metal[of "MetalType c" st w "Weight c" "Purity c"]
    by (simp add: CalculateMeltValueFromComposition_def)
qed

text \<open>
  With the fallback prices: a five-gram nickel in raw base-metal fields, a Morgan
  Dollar's silver in raw fields, the Buffalo Nickel of the catalog (base metal), and
  the clad Eisenhower Dollar of the catalog (copper, weight 0).
\<close>

theorem melt_value_nonneg_witness:
  "(\<exists>v. fst (CalculateBaseMeltValue cold_oracle (feeds_down 5) 5 75 25) = Inr (v, None) \<and> 0 \<le> v)
   \<and> (\<exists>v. fst (CalculateMeltValue cold_oracle (feeds_down 5) ''silver'' 0.77344 90) =
            Inr (v, None) \<and> 0 \<le> v)
   \<and> (\<exists>v. fst (CalculateMeltValueFromComposition cold_oracle (feeds_down 5)
                 (fst (GetComposition ''Buffalo Nickel''))) = Inr (v, None) \<and> 0 \<le> v)
   \<and> fst (CalculateMeltValueFromComposition cold_oracle (feeds_down 5)
          (fst (GetComposition ''Eisenhower Dollar''))) = Inr (0, None)"
proof -
  let ?p = "\<lparr>Gold = 2650, Silver = 30.5, Platinum = 950, Palladium = 950,
             Copper = 5.52, Nickel = 6.96, UpdatedAt = 5\<rparr>"
  have prices: "fst (fst (GetSpotPrices cold_oracle (feeds_down 5))) = Some ?p"
    by (simp add: GetSpotPrices_def cold_oracle_def feeds_down_def
        fetchRealPrices_def fetchGoldPriceOrg_def fetchMetalsLive_def Let_def)
  have nonneg: "0 \<le> Gold ?p" "0 \<le> Silver ?p" "0 \<le> Platinum ?p" "0 \<le> Palladium ?p"
    "0 \<le> Copper ?p" "0 \<le> Nickel ?p"
    by simp_all
  define buffalo where "buffalo = fst (GetComposition ''Buffalo Nickel'')"
  define eisenhower where "eisenhower = fst (GetComposition ''Eisenhower Dollar'')"
  define silver where "silver = ''silver''"
  have b: "IsBaseMetal buffalo" "Weight buffalo = 0" "Purity buffalo = 0"
    "WeightGrams buffalo = 5" "CopperPercent buffalo = 75" "NickelPercent buffalo = 25"
    unfolding buffalo_def
    by (simp_all add: GetComposition_def GetComposition_tbl_def CommonCompositions_def
        MetalComposition_zero_def)
  have e: "MetalType eisenhower = ''copper''" "Weight eisenhower = 0" "\<not> IsBaseMetal eisenhower"
    unfolding eisenhower_def
    by (simp_all add: GetComposition_def GetComposition_tbl_def CommonCompositions_def
        MetalComposition_zero_def)
  have s: "silver \<in> {''gold'', ''silver'', ''platinum'', ''palladium'', ''copper'', ''nickel''}"
    unfolding silver_def by simp
  note at_buffalo = melt_value_nonneg [OF prices nonneg, where c = buffalo
      and weightGrams = 5 and copperPercent = 75 and nickelPercent = 25
      and weight = "0.77344" and purity = 90 and metalType = silver]
  note at_eisenhower = melt_value_nonneg [OF prices nonneg, where c = eisenhower]
  have h1: "0 \<le> (5::real) \<and> 0 \<le> (75::real) \<and> 0 \<le> (25::real)"
    by simp
  have h2: "0 \<le> (0.77344::real) \<and> 0 \<le> (90::real)
      \<and> silver \<in> {''gold'', ''silver'', ''platinum'', ''palladium'', ''copper'', ''nickel''}"
    using s by simp
  have h3: "0 \<le> Weight buffalo \<and> 0 \<le> Purity buffalo \<and> 0 \<le> WeightGrams buffalo
      \<and> 0 \<le> CopperPercent buffalo \<and> 0 \<le> NickelPercent buffalo
      \<and> (IsBaseMetal buffalo
         \<or> MetalType buffalo \<in> {''gold'', ''silver'', ''platinum'', ''palladium'', ''copper'', ''nickel''})"
    using b by simp
  have h4: "MetalType eisenhower = ''copper'' \<and> Weight eisenhower = 0 \<and> \<not> IsBaseMetal eisenhower"
    using e by simp
  note 1 = at_buffalo [THEN conjunct1, THEN mp, OF h1]
  note 2 = at_buffalo [THEN conjunct2, THEN conjunct1, THEN mp, OF h2]
  note 3 = at_buffalo [THEN conjunct2, THEN conjunct2, THEN conjunct1, THEN mp, OF h3]
  note 4 = at_eisenhower [THEN conjunct2, THEN conjunct2, THEN conjunct2, THEN mp, OF h4]
  from 1 2 3 4 show ?thesis
    unfolding buffalo_def eisenhower_def silver_def by (intro conjI)
qed

section \<open>Claims about the name normalizer\<close>

text \<open>
  C6, as stated, fails: the grade pattern of \<open>normalizeCoinType\<close> takes a grade
  prefix of exactly two letters, not two to four. A trailing token with a four-letter
  prefix is removed by the normalizer the specification words and kept by the code.
\<close>

theorem normalizeCoinType_grade_prefix_counterexample:
  "normalizeCoinType ''Peace Dollar PCGS70'' = ''Peace Dollar PCGS70''
   \<and> normalize_spec ''Peace Dollar PCGS70'' = ''Peace Dollar''"
  by (simp add: normalizer_eval normalize_spec_def rx_grade_spec_def)

text \<open>
  C6, amended. \<open>normalizeCoinType\<close> removes the leading year/mint-mark token, the
  longest prefix of the input accepted by \<^verbatim>\<open>^\d{4}[-\s]?[A-Z]?\s*\<close>, and then the
  trailing grade token, the longest suffix of what is left accepted by
  \<^verbatim>\<open>\s+[A-Z]{2}\d+[A-Z]*$\<close> (a grade prefix of exactly two letters); where there is
  no such token nothing is removed, so an input with neither token is returned as it
  is. This fixes the result for every input: it is \<open>strip_tokens\<close> of the input.
\<close>

theorem normalizeCoinType_strips:
  "normalizeCoinType s = strip_tokens s
   \<and> (\<not> has_year_token s \<and> \<not> has_grade_token s \<longrightarrow> normalizeCoinType s = s)"
proof
  show "normalizeCoinType s = strip_tokens s"
    by (rule normalizeCoinType_strip_tokens)
  show "\<not> has_year_token s \<and> \<not> has_grade_token s \<longrightarrow> normalizeCoinType s = s"
    by (simp only: normalizeCoinType_fixed_point simp_thms)
qed

text \<open>
  A certification title: its longest year token has seven characters, the longest
  grade token of the rest starts at position twelve, and what the code returns is
  what is left between them. A canonical name has neither token and is left as it is.
\<close>

theorem normalizeCoinType_strips_witness:
  "longest_year_token ''1921-S Peace Dollar MS67'' = Some 7
   \<and> longest_grade_token ''Peace Dollar MS67'' = Some 12
   \<and> normalizeCoinType ''1921-S Peace Dollar MS67'' = ''Peace Dollar''
   \<and> normalizeCoinType ''Peace Dollar'' = ''Peace Dollar''"
proof -
  have year: "longest_year_token ''1921-S Peace Dollar MS67'' = Some 7"
    by (simp add: longest_year_token_def token_eval)
  have grade: "longest_grade_token ''Peace Dollar MS67'' = Some 12"
    by (simp add: longest_grade_token_def token_eval)
  have spec: "strip_tokens ''1921-S Peace Dollar MS67'' = ''Peace Dollar''"
    by (simp add: strip_tokens_def year grade)
  define title where "title = ''1921-S Peace Dollar MS67''"
  define canonical where "canonical = ''Peace Dollar''"
  from spec have "strip_tokens title = canonical"
    unfolding title_def canonical_def .
  with normalizeCoinType_strips [of title, THEN conjunct1]
  have first: "normalizeCoinType title = canonical" by (rule trans)
  have "\<not> has_year_token canonical \<and> \<not> has_grade_token canonical"
    unfolding has_year_token_strip has_grade_token_strip canonical_def
    by (simp add: normalizer_eval)
  with normalizeCoinType_strips [of canonical, THEN conjunct2]
  have second: "normalizeCoinType canonical = canonical" by (rule mp)
  from year grade first second show ?thesis
    unfolding title_def canonical_def by (intro conjI)
qed

text \<open>
  C7, as stated, fails: one pass removes one year token and one grade token, so an
  input that carries two of them changes again on the second pass.
\<close>

theorem normalizeCoinType_idempotent_counterexample:
  "normalizeCoinType (normalizeCoinType ''19211921'') \<noteq> normalizeCoinType ''19211921''
   \<and> normalizeCoinType ''Morgan Dollar MS65 MS65'' = ''Morgan Dollar MS65''
   \<and> normalizeCoinType ''Morgan Dollar MS65'' = ''Morgan Dollar''"
  by (simp add: normalizer_eval)

text \<open>
  C7, amended. A second pass leaves the result of the first pass as it is exactly
  when that result no longer starts with a year token and no longer ends with a grade
  token.
\<close>

theorem normalizeCoinType_idempotent_iff:
  "normalizeCoinType (normalizeCoinType s) = normalizeCoinType s \<longleftrightarrow>
     \<not> has_year_token (normalizeCoinType s) \<and> \<not> has_grade_token (normalizeCoinType s)"
  by (rule normalizeCoinType_fixed_point)

theorem normalizeCoinType_idempotent_iff_witness:
  "normalizeCoinType (normalizeCoinType ''1921-S Peace Dollar MS67'') =
     normalizeCoinType ''1921-S Peace Dollar MS67''
   \<and> has_year_token (normalizeCoinType ''19211921'')"
proof -
  define title where "title = ''1921-S Peace Dollar MS67''"
  define doubled where "doubled = ''19211921''"
  have "\<not> has_year_token (normalizeCoinType title)"
    unfolding has_year_token_strip title_def by (simp add: normalizer_eval)
  moreover have "\<not> has_grade_token (normalizeCoinType title)"
    unfolding has_grade_token_strip title_def by (simp add: normalizer_eval)
  ultimately have first: "normalizeCoinType (normalizeCoinType title) = normalizeCoinType title"
    using normalizeCoinType_idempotent_iff [of title] by simp
  have "normalizeCoinType (normalizeCoinType doubled) \<noteq> normalizeCoinType doubled"
    unfolding doubled_def by (simp add: normalizer_eval)
  moreover have "\<not> has_grade_token (normalizeCoinType doubled)"
    unfolding has_grade_token_strip doubled_def by (simp add: normalizer_eval)
  ultimately have second: "has_year_token (normalizeCoinType doubled)"
    using normalizeCoinType_idempotent_iff [of doubled] by simp
  from first second show ?thesis
    unfolding title_def doubled_def by (rule conjI)
qed

end
